theory Spec2Isabelle
  imports Main "HOL-Library.Sublist"
begin

section \<open>Python values\<close>

text \<open>
  The values that travel between the orchestrator, the object store and the sandbox are
  JSON documents: \<open>None\<close>, booleans, unbounded integers, strings, lists and dictionaries
  with string keys. A dictionary is a finite map, so two dictionaries are equal exactly when
  they hold the same keys with the same values, as \<open>==\<close> on Python dictionaries.
  Floating-point numbers are left out.
\<close>

datatype pyval =
    PNone
  | PBool bool
  | PInt int
  | PStr string
  | PList "pyval list"
  | PDict "string \<Rightarrow> pyval option"

datatype py_error = AttributeError | TypeError | RecursionError

text \<open>\<open>str.startswith\<close>.\<close>

definition startswith :: "string \<Rightarrow> string \<Rightarrow> bool" where
  "startswith s p = (take (length p) s = p)"

text \<open>
  \<open>name in container\<close> for a string \<open>name\<close>: key membership in a dictionary, element
  membership in a list, substring test in a string, \<open>TypeError\<close> otherwise.
\<close>

definition py_in :: "string \<Rightarrow> pyval \<Rightarrow> py_error + bool" where
  "py_in name c =
     (case c of
        PDict d \<Rightarrow> Inr (d name \<noteq> None)
      | PList l \<Rightarrow> Inr (PStr name \<in> set l)
      | PStr s \<Rightarrow> Inr (sublist name s)
      | _ \<Rightarrow> Inl TypeError)"

text \<open>
  \<open>container[name]\<close> for a string \<open>name\<close> that \<open>py_in\<close> has found: only a dictionary
  can be indexed by a string.
\<close>

definition py_getitem :: "pyval \<Rightarrow> string \<Rightarrow> py_error + pyval" where
  "py_getitem c name =
     (case c of
        PDict d \<Rightarrow> (case d name of Some v \<Rightarrow> Inr v | None \<Rightarrow> Inl TypeError)
      | _ \<Rightarrow> Inl TypeError)"

text \<open>\<open>container[name] = value\<close> for a string \<open>name\<close>.\<close>

definition py_setitem :: "pyval \<Rightarrow> string \<Rightarrow> pyval \<Rightarrow> py_error + pyval" where
  "py_setitem c name v =
     (case c of
        PDict d \<Rightarrow> Inr (PDict (d(name \<mapsto> v)))
      | _ \<Rightarrow> Inl TypeError)"

section \<open>The object model: \<open>src/core/uvm.py\<close>\<close>

text \<open>
  A \<open>UvmObject\<close> is its instance dictionary. \<open>__init__\<close> assigns the five slots
  \<open>_id\<close>, \<open>_key\<close>, \<open>attributes\<close>, \<open>methods\<close> and \<open>_p_changed\<close>; each of those
  assignments goes through \<open>__setattr__\<close> and takes its first branch.

  An assignment \<open>self.attributes[name] = value\<close> changes the dictionary stored in the slot
  \<open>attributes\<close>; in the model the slot is rewritten with the updated dictionary. Another slot
  that holds the same dictionary object is not followed.
\<close>

type_synonym UvmObject = "string \<Rightarrow> pyval option"

datatype attr_value =
    Value pyval
  | method_placeholder
  | ClassAttribute string

text \<open>
  \<open>super().__setattr__(name, value)\<close>, the default setter of \<open>object\<close>: it stores into the
  instance dictionary, except for the three names that \<open>object\<close> serves by descriptors.
  \<open>__dict__\<close> replaces the instance dictionary and takes a dictionary only,
  \<open>__class__\<close> takes a class only, which no \<open>pyval\<close> is, and \<open>__weakref__\<close> is read-only.
\<close>

definition object_setattr :: "UvmObject \<Rightarrow> string \<Rightarrow> pyval \<Rightarrow> py_error + UvmObject" where
  "object_setattr self name v =
     (if name = ''__dict__'' then (case v of PDict d \<Rightarrow> Inr d | _ \<Rightarrow> Inl TypeError)
      else if name = ''__class__'' then Inl TypeError
      else if name = ''__weakref__'' then Inl AttributeError
      else Inr (self(name \<mapsto> v)))"

text \<open>
  Reading \<open>self.attributes\<close> inside the two hooks. When the slot is missing the read falls
  back to \<open>__getattr__('attributes')\<close>, whose first line reads \<open>self.attributes\<close> again:
  Python ends the recursion with \<open>RecursionError\<close>.
\<close>

definition self_attributes :: "UvmObject \<Rightarrow> py_error + pyval" where
  "self_attributes self =
     (case self ''attributes'' of Some a \<Rightarrow> Inr a | None \<Rightarrow> Inl RecursionError)"

text \<open>
  Reading \<open>self.methods\<close> inside \<open>__getattr__\<close>. When the slot is missing the read falls back
  to \<open>__getattr__('methods')\<close>: that returns \<open>self.attributes['methods']\<close> when the attribute
  mapping has such a key and otherwise reads \<open>self.methods\<close> again, without end.
\<close>

definition self_methods :: "UvmObject \<Rightarrow> py_error + pyval" where
  "self_methods self =
     (case self ''methods'' of
        Some m \<Rightarrow> Inr m
      | None \<Rightarrow>
          (case self_attributes self of
             Inl e \<Rightarrow> Inl e
           | Inr a \<Rightarrow>
               (case py_in ''methods'' a of
                  Inl e \<Rightarrow> Inl e
                | Inr True \<Rightarrow> py_getitem a ''methods''
                | Inr False \<Rightarrow> Inl RecursionError)))"

text \<open>\<open>UvmObject.__getattr__\<close>: the hook Python calls when the normal lookup has failed.\<close>

definition UvmObject_getattr :: "UvmObject \<Rightarrow> string \<Rightarrow> py_error + attr_value" where
  "UvmObject_getattr self name =
     (case self_attributes self of
        Inl e \<Rightarrow> Inl e
      | Inr a \<Rightarrow>
          (case py_in name a of
             Inl e \<Rightarrow> Inl e
           | Inr True \<Rightarrow> (case py_getitem a name of Inl e \<Rightarrow> Inl e | Inr v \<Rightarrow> Inr (Value v))
           | Inr False \<Rightarrow>
               (case self_methods self of
                  Inl e \<Rightarrow> Inl e
                | Inr m \<Rightarrow>
                    (case py_in name m of
                       Inl e \<Rightarrow> Inl e
                     | Inr True \<Rightarrow> Inr method_placeholder
                     | Inr False \<Rightarrow> Inl AttributeError))))"

text \<open>\<open>UvmObject.__setattr__\<close>: the hook Python calls for every assignment \<open>obj.name = value\<close>.\<close>

definition UvmObject_setattr :: "UvmObject \<Rightarrow> string \<Rightarrow> pyval \<Rightarrow> py_error + UvmObject" where
  "UvmObject_setattr self name v =
     (if startswith name ''_'' \<or> name \<in> set [''attributes'', ''methods'']
      then object_setattr self name v
      else
        (case self_attributes self of
           Inl e \<Rightarrow> Inl e
         | Inr a \<Rightarrow>
             (case py_setitem a name v of
                Inl e \<Rightarrow> Inl e
              | Inr a' \<Rightarrow> object_setattr (self(''attributes'' \<mapsto> a')) ''_p_changed'' (PBool True))))"

text \<open>
  The names the class body of \<open>UvmObject\<close> binds. The names inherited from \<open>object\<close> all
  begin with two underscores and are not listed.
\<close>

definition class_namespace :: "string list" where
  "class_namespace = [''__init__'', ''__getattr__'', ''__setattr__'', ''to_doc'', ''from_doc'']"

text \<open>
  The expression \<open>obj.name\<close>: the instance dictionary first, then the class, and
  \<open>__getattr__\<close> only when both have failed.
\<close>

definition read_attribute :: "UvmObject \<Rightarrow> string \<Rightarrow> py_error + attr_value" where
  "read_attribute self name =
     (case self name of
        Some v \<Rightarrow> Inr (Value v)
      | None \<Rightarrow>
          if name \<in> set class_namespace then Inr (ClassAttribute name)
          else UvmObject_getattr self name)"

text \<open>The statement \<open>obj.name = value\<close> followed by the expression \<open>obj.name\<close>.\<close>

definition assign_then_read :: "UvmObject \<Rightarrow> string \<Rightarrow> pyval \<Rightarrow> py_error + attr_value" where
  "assign_then_read self name v =
     (case UvmObject_setattr self name v of
        Inl e \<Rightarrow> Inl e
      | Inr self' \<Rightarrow> read_attribute self' name)"

text \<open>\<open>UvmObject.__init__\<close>, with the defaults of its optional parameters.\<close>

definition opt_str :: "string option \<Rightarrow> pyval" where
  "opt_str s = (case s of None \<Rightarrow> PNone | Some x \<Rightarrow> PStr x)"

definition UvmObject_init ::
  "string option \<Rightarrow> string option \<Rightarrow> (string \<Rightarrow> pyval option) option \<Rightarrow>
   (string \<Rightarrow> string option) option \<Rightarrow> UvmObject" where
  "UvmObject_init doc_id key attributes methods =
     [''_id'' \<mapsto> opt_str doc_id,
      ''_key'' \<mapsto> opt_str key,
      ''attributes'' \<mapsto> PDict (case attributes of None \<Rightarrow> Map.empty | Some a \<Rightarrow> a),
      ''methods'' \<mapsto> PDict (case methods of None \<Rightarrow> Map.empty
                                | Some m \<Rightarrow> (\<lambda>k. map_option PStr (m k))),
      ''_p_changed'' \<mapsto> PBool False]"

section \<open>The sandbox service: \<open>services/execution_sandbox/main.py\<close>\<close>

record ExecutionPayload =
  code :: string
  method_name :: string
  object_state :: "string \<Rightarrow> pyval option"
  args :: "pyval list"
  kwargs :: "string \<Rightarrow> pyval option"

text \<open>The proxy object the body runs against.\<close>

record SandboxObject =
  attributes :: "string \<Rightarrow> pyval option"
  p_changed :: bool

text \<open>The JSON object the endpoint answers with; \<open>output_value\<close> is its key \<open>output\<close>.\<close>

record SandboxResponse =
  output_value :: pyval
  state_changed :: bool
  final_state :: "string \<Rightarrow> pyval option"
  error :: "string option"

text \<open>
  A raised exception: the name of its type and its message. \<open>Exception\<close> is an exception
  whose type derives from \<open>Exception\<close>; \<open>BaseException\<close> is one whose type derives from
  \<open>BaseException\<close> only (\<open>SystemExit\<close>, \<open>KeyboardInterrupt\<close>, \<open>GeneratorExit\<close>), which a
  clause \<open>except Exception\<close> does not catch.
\<close>

datatype py_exception = Exception string string | BaseException string string

text \<open>
  What running Python text does is not part of the repository; it is a parameter of the model.
  \<open>exec(code, {}, local_namespace)\<close> runs the text with \<open>self\<close> bound to the proxy: it
  raises, or it leaves a namespace behind. A name of the namespace that is bound to a callable
  maps to what a call does: the call raises or returns a value. Both \<open>exec\<close> and the call may
  have changed the proxy on the way, also when they raise, so both give the proxy back.
\<close>

type_synonym py_callable =
  "SandboxObject \<Rightarrow> pyval list \<Rightarrow> (string \<Rightarrow> pyval option) \<Rightarrow> (py_exception + pyval) \<times> SandboxObject"

type_synonym py_exec =
  "string \<Rightarrow> SandboxObject \<Rightarrow> (py_exception + (string \<Rightarrow> py_callable option)) \<times> SandboxObject"

text \<open>
  \<open>copy.deepcopy\<close>: the copy shares nothing with the original. HOL values are never
  changed in place, so the copy is the value itself and a change of the proxy's mapping
  is a new mapping held by the proxy.
\<close>

definition deepcopy :: "(string \<Rightarrow> pyval option) \<Rightarrow> (string \<Rightarrow> pyval option)" where
  "deepcopy m = m"

text \<open>
  The clause \<open>except Exception\<close> of \<open>execute_code\<close>: an exception it catches becomes
  the response, one it does not catch leaves the endpoint (\<open>Inl\<close>).
\<close>

definition execution_error ::
  "ExecutionPayload \<Rightarrow> py_exception \<Rightarrow> py_exception + SandboxResponse" where
  "execution_error payload e =
     (case e of
        Exception type_name msg \<Rightarrow>
          Inr \<lparr>output_value = PNone, state_changed = False, final_state = object_state payload,
               error = Some (type_name @ '': '' @ msg)\<rparr>
      | BaseException type_name msg \<Rightarrow> Inl e)"

definition execute_code :: "py_exec \<Rightarrow> ExecutionPayload \<Rightarrow> py_exception + SandboxResponse" where
  "execute_code exec payload =
     (let initial_state = deepcopy (object_state payload);
          sandbox_self = \<lparr>attributes = initial_state, p_changed = False\<rparr>
      in case exec (code payload) sandbox_self of
           (Inl e, _) \<Rightarrow> execution_error payload e
         | (Inr local_namespace, sandbox_self') \<Rightarrow>
             (case local_namespace (method_name payload) of
                None \<Rightarrow>
                  execution_error payload
                    (Exception ''ValueError''
                       (''Method '' @ [CHR 0x27] @ method_name payload @ [CHR 0x27]
                        @ '' not found or not callable after exec.''))
              | Some method_to_call \<Rightarrow>
                  (case method_to_call sandbox_self' (args payload) (kwargs payload) of
                     (Inl e, _) \<Rightarrow> execution_error payload e
                   | (Inr out, sandbox_self'') \<Rightarrow>
                       Inr \<lparr>output_value = out,
                            state_changed = p_changed sandbox_self'',
                            final_state = attributes sandbox_self'',
                            error = None\<rparr>)))"

text \<open>The exception that leaves the \<open>try\<close> block of \<open>execute_code\<close>, if one does.\<close>

definition raised :: "py_exec \<Rightarrow> ExecutionPayload \<Rightarrow> py_exception option" where
  "raised exec payload =
     (case exec (code payload) \<lparr>attributes = deepcopy (object_state payload), p_changed = False\<rparr> of
        (Inl e, _) \<Rightarrow> Some e
      | (Inr local_namespace, sandbox_self') \<Rightarrow>
          (case local_namespace (method_name payload) of
             None \<Rightarrow>
               Some (Exception ''ValueError''
                       (''Method '' @ [CHR 0x27] @ method_name payload @ [CHR 0x27]
                        @ '' not found or not callable after exec.''))
           | Some method_to_call \<Rightarrow>
               (case method_to_call sandbox_self' (args payload) (kwargs payload) of
                  (Inl e, _) \<Rightarrow> Some e
                | (Inr out, _) \<Rightarrow> None)))"

section \<open>The object store\<close>

text \<open>
  The store is an ArangoDB database with the vertex collection \<open>UvmObjects\<close> and the edge
  collection \<open>PrototypeLinks\<close>, as \<open>genesis.py\<close> creates them. A document is stored under its
  key and holds an attribute mapping and a method mapping; its \<open>_key\<close> is the key it is stored
  under and its \<open>_id\<close> is \<open>UvmObjects/\<close> followed by the key. An edge is a pair of keys, from
  the child to the parent. The database server is not part of the repository: the two
  operations the client uses are modelled from its documented behaviour.
\<close>

record document =
  doc_attributes :: "string \<Rightarrow> pyval option"
  doc_methods :: "string \<Rightarrow> string option"

record database =
  UvmObjects :: "string \<Rightarrow> document option"
  PrototypeLinks :: "(string \<times> string) list"

definition doc_id :: "string \<Rightarrow> string" where
  "doc_id key = ''UvmObjects/'' @ key"

text \<open>
  A partial update with the server's defaults (\<open>mergeObjects\<close> true, \<open>keepNull\<close> true):
  where the stored value and the patch value are both objects they are merged key by key,
  recursively; anywhere else the patch value replaces the stored one. A key the patch does
  not mention keeps its stored value. \<open>merge_value p old\<close> merges the patch value \<open>p\<close> into
  the stored value \<open>old\<close>.
\<close>

primrec merge_value :: "pyval \<Rightarrow> pyval \<Rightarrow> pyval" where
  "merge_value PNone = (\<lambda>old. PNone)"
| "merge_value (PBool b) = (\<lambda>old. PBool b)"
| "merge_value (PInt i) = (\<lambda>old. PInt i)"
| "merge_value (PStr s) = (\<lambda>old. PStr s)"
| "merge_value (PList l) = (\<lambda>old. PList l)"
| "merge_value (PDict p) =
     (\<lambda>old. case old of
        PDict d \<Rightarrow>
          PDict (\<lambda>k. case map_option merge_value (p k) of
                       None \<Rightarrow> d k
                     | Some merge_into \<Rightarrow>
                         (case d k of
                            None \<Rightarrow> Some (merge_into PNone)
                          | Some old_value \<Rightarrow> Some (merge_into old_value)))
      | _ \<Rightarrow> PDict p)"

definition merge_objects ::
  "(string \<Rightarrow> pyval option) \<Rightarrow> (string \<Rightarrow> pyval option) \<Rightarrow> (string \<Rightarrow> pyval option)" where
  "merge_objects stored patch =
     (\<lambda>k. case patch k of
            None \<Rightarrow> stored k
          | Some p \<Rightarrow>
              (case stored k of
                 None \<Rightarrow> Some (merge_value p PNone)
               | Some old_value \<Rightarrow> Some (merge_value p old_value)))"

text \<open>The fields an update may carry besides \<open>_key\<close>.\<close>

record patch =
  patch_attributes :: "(string \<Rightarrow> pyval option) option"
  patch_methods :: "(string \<Rightarrow> string option) option"

text \<open>
  \<open>collection.update(patch)\<close>: the document named by \<open>_key\<close> must exist, otherwise the
  driver raises; \<open>None\<close> is that exception. Method bodies are strings, so a method of the
  patch replaces the stored method of the same name.
\<close>

definition collection_update :: "database \<Rightarrow> string \<Rightarrow> patch \<Rightarrow> database option" where
  "collection_update db key p =
     (case UvmObjects db key of
        None \<Rightarrow> None
      | Some d \<Rightarrow>
          Some (db\<lparr>UvmObjects := (UvmObjects db)(key \<mapsto>
            \<lparr>doc_attributes =
               (case patch_attributes p of
                  None \<Rightarrow> doc_attributes d
                | Some a \<Rightarrow> merge_objects (doc_attributes d) a),
             doc_methods =
               (case patch_methods p of
                  None \<Rightarrow> doc_methods d
                | Some m \<Rightarrow> (doc_methods d) ++ m)\<rparr>)\<rparr>))"

text \<open>
  The graph traversal \<open>FOR v IN 0..d OUTBOUND start PrototypeLinks\<close> with the server's
  defaults: depth first, a vertex is emitted when it is reached (the start vertex at depth 0),
  a vertex may be visited again along another path, and an edge is not followed a second time
  on the path that already holds it. Edges are told apart by their position in the collection
  and are followed in that order; \<open>path\<close> holds the positions of the edges walked so far.
\<close>

fun traversal :: "(string \<times> string) list \<Rightarrow> nat \<Rightarrow> nat list \<Rightarrow> string \<Rightarrow> string list" where
  "traversal es 0 path v = [v]"
| "traversal es (Suc d) path v =
     v # concat (map (\<lambda>i. traversal es d (i # path) (snd (es ! i)))
                     (filter (\<lambda>i. fst (es ! i) = v \<and> i \<notin> set path) [0..<length es]))"

text \<open>
  \<open>FILTER HAS(v.methods, @method_name)\<close> and \<open>RETURN { obj: v, code: v.methods[@method_name] }\<close>
  for one vertex: a vertex without a document has no methods.
\<close>

definition method_entry ::
  "database \<Rightarrow> string \<Rightarrow> string \<Rightarrow> (string \<times> document \<times> string) option" where
  "method_entry db name v =
     (case UvmObjects db v of
        None \<Rightarrow> None
      | Some d \<Rightarrow> (case doc_methods d name of None \<Rightarrow> None | Some c \<Rightarrow> Some (v, d, c)))"

text \<open>The query of \<open>resolve_and_execute_method\<close>; \<open>LIMIT 1\<close> keeps the first match.\<close>

definition aql_query :: "database \<Rightarrow> string \<Rightarrow> string \<Rightarrow> (string \<times> document \<times> string) list" where
  "aql_query db start_node name =
     take 1 (List.map_filter (method_entry db name) (traversal (PrototypeLinks db) 100 [] start_node))"

section \<open>The security auditor: \<open>src/core/security.py\<close>\<close>

text \<open>
  A node of Python's abstract syntax tree: its class, with the identifier of a \<open>Name\<close> and
  the attribute name of an \<open>Attribute\<close>, and its child nodes in the order
  \<open>ast.iter_child_nodes\<close> yields them. Every class the auditor does not look at is \<open>Other\<close>.
\<close>

datatype node_class = Import | ImportFrom | Delete | Name string | Attribute string | Other string

datatype node = Node node_class "node list"

fun iter_child_nodes :: "node \<Rightarrow> node list" where
  "iter_child_nodes (Node c children) = children"

text \<open>
  \<open>ast.walk\<close> of the standard library: a queue that starts with the root; the head is
  taken off, its children are put at the end, and the head is yielded.
\<close>

function walk_queue :: "node list \<Rightarrow> node list" where
  "walk_queue [] = []"
| "walk_queue (n # todo) = n # walk_queue (todo @ iter_child_nodes n)"
  by pat_completeness auto

termination walk_queue
proof (relation "measure (\<lambda>q. sum_list (map size q))")
  show "wf (measure (\<lambda>q. sum_list (map size q)))" by simp
next
  fix n :: node and todo :: "node list"
  have "sum_list (map size (iter_child_nodes n)) < size n"
  proof (cases n)
    case (Node c children)
    have "sum_list (map size children) \<le> size_list size children"
      by (induction children) auto
    then show ?thesis using Node by simp
  qed
  then show "(todo @ iter_child_nodes n, n # todo) \<in> measure (\<lambda>q. sum_list (map size q))"
    by simp
qed

definition walk :: "node \<Rightarrow> node list" where
  "walk tree = walk_queue [tree]"

text \<open>The two denylists of \<open>PersistenceGuardian.__init__\<close>.\<close>

definition denylist :: "node_class \<Rightarrow> bool" where
  "denylist c = (case c of Import \<Rightarrow> True | ImportFrom \<Rightarrow> True | Delete \<Rightarrow> True | _ \<Rightarrow> False)"

definition name_denylist :: "string list" where
  "name_denylist =
     [''open'', ''eval'', ''exec'', ''exit'', ''quit'',
      ''__import__'', ''os'', ''sys'', ''subprocess'', ''shutil'', ''socket'']"

text \<open>The loop of \<open>audit\<close> over the walked nodes, with its three early returns.\<close>

fun audit_nodes :: "node list \<Rightarrow> bool" where
  "audit_nodes [] = True"
| "audit_nodes (Node c children # rest) =
     (if denylist c then False
      else if (case c of Name ident \<Rightarrow> ident \<in> set name_denylist | _ \<Rightarrow> False) then False
      else if (case c of Attribute attr \<Rightarrow> attr \<in> set name_denylist | _ \<Rightarrow> False) then False
      else audit_nodes rest)"

text \<open>
  What \<open>ast.parse\<close> does with a text: it returns the tree, it raises \<open>SyntaxError\<close>, or
  it raises another exception (\<open>RecursionError\<close> on a text nested too deep,
  \<open>UnicodeEncodeError\<close> on a text with a lone surrogate, \<open>MemoryError\<close>).
\<close>

datatype parse_outcome = Parsed node | SyntaxError | ParseRaises py_exception

text \<open>
  \<open>PersistenceGuardian.audit\<close>. The parser is a parameter. The \<open>try\<close> block of \<open>audit\<close>
  has one handler, for \<open>SyntaxError\<close>; any other exception of the parser leaves \<open>audit\<close>
  (\<open>Inl\<close>).
\<close>

definition audit :: "(string \<Rightarrow> parse_outcome) \<Rightarrow> string \<Rightarrow> py_exception + bool" where
  "audit ast_parse code_string =
     (case ast_parse code_string of
        Parsed tree \<Rightarrow> Inr (audit_nodes (walk tree))
      | SyntaxError \<Rightarrow> Inr False
      | ParseRaises e \<Rightarrow> Inl e)"

text \<open>The auditor returns \<open>True\<close> on the text.\<close>

definition passes :: "(string \<Rightarrow> parse_outcome) \<Rightarrow> string \<Rightarrow> bool" where
  "passes ast_parse code_string = (audit ast_parse code_string = Inr True)"






section \<open>The persistence client: \<open>src/persistence/db_client.py\<close>\<close>

text \<open>
  What the running system holds: the database handle of the client (\<open>None\<close> before
  \<open>initialize\<close>), whether the HTTP client and the client of the language model exist, and
  a log of the calls made to the sandbox, the generator, the auditor and the store. The log is
  not in the source; it is what the properties about calls that are never made speak of.
  \<open>Posted\<close> is a payload sent to the sandbox, \<open>Generated\<close> a text the generator has
  returned, \<open>Audited\<close> a text and the auditor's verdict on it, \<open>Installed\<close> a call of
  \<open>install_method\<close> with the value it returned, and \<open>Persisted\<close> an attribute update
  that was written.
\<close>

datatype event =
    Posted ExecutionPayload
  | Generated string
  | Audited string bool
  | Installed string string string bool
  | Persisted string "string \<Rightarrow> pyval option"

record world =
  db :: "database option"
  http_client :: bool
  ollama_client :: bool
  events :: "event list"

text \<open>What \<open>http_client.post\<close> followed by \<open>raise_for_status\<close> and \<open>json\<close> gives.\<close>

datatype http_result =
    HTTPStatusError nat
  | RequestError
  | Response SandboxResponse

text \<open>
  The collaborators outside the repository. Each is asked with the number of events logged
  so far, so that the same question may get another answer later. \<open>generate_code\<close> is the
  cognitive engine as the orchestrator sees it once its client exists: the text of a method,
  or the empty string when the model or the parsing of its answer has failed.
\<close>

record env =
  post :: "nat \<Rightarrow> ExecutionPayload \<Rightarrow> http_result"
  generate_code :: "nat \<Rightarrow> string \<Rightarrow> pyval list \<Rightarrow> (string \<Rightarrow> pyval option) \<Rightarrow> string"
  ast_parse :: "string \<Rightarrow> parse_outcome"

text \<open>
  The sandbox endpoint reached without a transport failure. An exception that leaves
  \<open>execute_code\<close> is answered by the server with the status 500.
\<close>

definition sandbox_endpoint :: "py_exec \<Rightarrow> nat \<Rightarrow> ExecutionPayload \<Rightarrow> http_result" where
  "sandbox_endpoint exec t payload =
     (case execute_code exec payload of
        Inl e \<Rightarrow> HTTPStatusError 500
      | Inr response \<Rightarrow> Response response)"

datatype MethodExecutionResult = MethodExecutionResult pyval bool string

definition log_event :: "world \<Rightarrow> event \<Rightarrow> world" where
  "log_event w e = w\<lparr>events := events w @ [e]\<rparr>"

text \<open>\<open>UvmObject.from_doc\<close> for the document stored under \<open>key\<close>.\<close>

definition from_doc :: "string \<Rightarrow> document \<Rightarrow> UvmObject" where
  "from_doc key doc =
     UvmObject_init (Some (doc_id key)) (Some key) (Some (doc_attributes doc)) (Some (doc_methods doc))"

definition get_object :: "world \<Rightarrow> string \<Rightarrow> UvmObject option" where
  "get_object w object_id =
     (case db w of
        None \<Rightarrow> None
      | Some d \<Rightarrow> (case UvmObjects d object_id of None \<Rightarrow> None | Some doc \<Rightarrow> Some (from_doc object_id doc)))"

definition install_method :: "world \<Rightarrow> string \<Rightarrow> string \<Rightarrow> string \<Rightarrow> bool \<times> world" where
  "install_method w target_id name code_string =
     (case db w of
        None \<Rightarrow> (False, log_event w (Installed target_id name code_string False))
      | Some d \<Rightarrow>
          (case collection_update d target_id
                  \<lparr>patch_attributes = None, patch_methods = Some [name \<mapsto> code_string]\<rparr> of
             None \<Rightarrow> (False, log_event w (Installed target_id name code_string False))
           | Some d' \<Rightarrow>
               (True, log_event (w\<lparr>db := Some d'\<rparr>) (Installed target_id name code_string True))))"

text \<open>\<open>result_data.get("error")\<close> read as a condition: a missing, null or empty error is false.\<close>

definition reports_error :: "SandboxResponse \<Rightarrow> bool" where
  "reports_error r = (case error r of None \<Rightarrow> False | Some msg \<Rightarrow> msg \<noteq> [])"

definition resolve_and_execute_method ::
  "env \<Rightarrow> world \<Rightarrow> string \<Rightarrow> string \<Rightarrow> pyval list \<Rightarrow> (string \<Rightarrow> pyval option) \<Rightarrow>
   MethodExecutionResult option \<times> world" where
  "resolve_and_execute_method E w start_object_id name a k =
     (case db w of
        None \<Rightarrow> (None, w)
      | Some d \<Rightarrow>
          (case aql_query d start_object_id name of
             [] \<Rightarrow> (None, w)
           | (source_key, source_object_doc, code_to_execute) # _ \<Rightarrow>
               (let sandbox_payload =
                      \<lparr>code = code_to_execute, method_name = name,
                       object_state = doc_attributes source_object_doc, args = a, kwargs = k\<rparr>;
                    w1 = log_event w (Posted sandbox_payload)
                in case post E (length (events w)) sandbox_payload of
                     HTTPStatusError status \<Rightarrow> (None, w1)
                   | RequestError \<Rightarrow> (None, w1)
                   | Response result_data \<Rightarrow>
                       if reports_error result_data then (None, w1)
                       else if state_changed result_data then
                         (case collection_update d source_key
                                 \<lparr>patch_attributes = Some (final_state result_data),
                                  patch_methods = None\<rparr> of
                            None \<Rightarrow> (None, w1)
                          | Some d' \<Rightarrow>
                              (Some (MethodExecutionResult (output_value result_data)
                                       (state_changed result_data) (doc_id source_key)),
                               log_event (w1\<lparr>db := Some d'\<rparr>)
                                 (Persisted source_key (final_state result_data))))
                       else
                         (Some (MethodExecutionResult (output_value result_data)
                                  (state_changed result_data) (doc_id source_key)),
                          w1))))"

section \<open>The orchestrator: \<open>src/core/orchestrator.py\<close>\<close>

text \<open>
  What a request ends with: the dictionary with \<open>output\<close> and \<open>state_changed\<close>, the
  dictionary with \<open>error\<close>, or an exception that leaves \<open>process_message\<close>, given by its
  message: one of its own two \<open>RuntimeError\<close>s, or what the auditor has raised, for which
  \<open>does_not_understand\<close> has no handler.
  \<open>process_message\<close> and \<open>does_not_understand\<close> call each other with no bound in the
  source. The model counts the entries into \<open>process_message\<close> that are still allowed;
  \<open>OutOfFuel\<close> is a request that has not ended within them.
\<close>

datatype reply =
    Result pyval bool
  | Error string
  | Raised string
  | OutOfFuel

fun message :: "py_exception \<Rightarrow> string" where
  "message (Exception type_name msg) = msg"
| "message (BaseException type_name msg) = msg"

fun process_message ::
  "env \<Rightarrow> nat \<Rightarrow> world \<Rightarrow> string \<Rightarrow> string \<Rightarrow> pyval list \<Rightarrow> (string \<Rightarrow> pyval option) \<Rightarrow> reply \<times> world"
and does_not_understand ::
  "env \<Rightarrow> nat \<Rightarrow> world \<Rightarrow> string \<Rightarrow> string \<Rightarrow> pyval list \<Rightarrow> (string \<Rightarrow> pyval option) \<Rightarrow> reply \<times> world"
where
  "process_message E 0 w target_id name a k = (OutOfFuel, w)"
| "process_message E (Suc fuel) w target_id name a k =
     (if \<not> http_client w then (Raised ''HTTP client not initialized.'', w)
      else
        (case resolve_and_execute_method E w target_id name a k of
           (None, w') \<Rightarrow> does_not_understand E fuel w' target_id name a k
         | (Some (MethodExecutionResult out changed source_id), w') \<Rightarrow> (Result out changed, w')))"
| "does_not_understand E fuel w target_id failed_method_name a k =
     (if \<not> ollama_client w then (Raised ''Ollama client not initialized.'', w)
      else
        (let generated_code = generate_code E (length (events w)) failed_method_name a k;
             w1 = log_event w (Generated generated_code)
         in if generated_code = [] then (Error ''Code generation failed'', w1)
            else
              (case audit (ast_parse E) generated_code of
                 Inl e \<Rightarrow> (Raised (message e), w1)
               | Inr verdict \<Rightarrow>
                   (let w2 = log_event w1 (Audited generated_code verdict)
                    in if verdict then
                         (case install_method w2 target_id failed_method_name generated_code of
                            (True, w3) \<Rightarrow> process_message E fuel w3 target_id failed_method_name a k
                          | (False, w3) \<Rightarrow> (Error ''Method installation failed'', w3))
                       else (Error ''Security audit failed'', w2)))))"

section \<open>Example method texts\<close>

text \<open>
  Six method texts and what Python does with them, for the examples below; each is a
  function definition on one line, so \<open>exec\<close> binds the name and leaves the proxy alone.
  \<open>example_exec\<close> treats every other text as one that does not compile. A call with
  arguments the function does not take raises \<open>TypeError\<close>.
\<close>

definition set_n_code :: string where
  "set_n_code = ''def set_n(self): self.attributes.update(n=1)''"

definition touch_code :: string where
  "touch_code = ''def touch(self): self._p_changed = True''"

definition boom_code :: string where
  "boom_code = ''def boom(self): self.attributes.update(n=1); raise ValueError''"

definition clear_code :: string where
  "clear_code = ''def clear(self): self.attributes.clear(); self._p_changed = True''"

definition echo_code :: string where
  "echo_code = ''def boom(self): return 1''"

definition bump_code :: string where
  "bump_code = ''def bump(self): self.attributes.update(n=1); self._p_changed = True''"

definition no_arguments :: "pyval list \<Rightarrow> (string \<Rightarrow> pyval option) \<Rightarrow> bool" where
  "no_arguments a k = (a = [] \<and> k = Map.empty)"

definition wrong_arguments :: py_exception where
  "wrong_arguments = Exception ''TypeError'' ''unexpected arguments''"

definition set_n_method :: py_callable where
  "set_n_method s a k =
     (if no_arguments a k
      then (Inr PNone, s\<lparr>attributes := (attributes s)(''n'' \<mapsto> PInt 1)\<rparr>)
      else (Inl wrong_arguments, s))"

definition touch_method :: py_callable where
  "touch_method s a k =
     (if no_arguments a k
      then (Inr PNone, s\<lparr>p_changed := True\<rparr>)
      else (Inl wrong_arguments, s))"

definition boom_method :: py_callable where
  "boom_method s a k =
     (if no_arguments a k
      then (Inl (Exception ''ValueError'' []), s\<lparr>attributes := (attributes s)(''n'' \<mapsto> PInt 1)\<rparr>)
      else (Inl wrong_arguments, s))"

definition clear_method :: py_callable where
  "clear_method s a k =
     (if no_arguments a k
      then (Inr PNone, s\<lparr>attributes := Map.empty, p_changed := True\<rparr>)
      else (Inl wrong_arguments, s))"

definition echo_method :: py_callable where
  "echo_method s a k =
     (if no_arguments a k
      then (Inr (PInt 1), s)
      else (Inl wrong_arguments, s))"

definition bump_method :: py_callable where
  "bump_method s a k =
     (if no_arguments a k
      then (Inr PNone, s\<lparr>attributes := (attributes s)(''n'' \<mapsto> PInt 1), p_changed := True\<rparr>)
      else (Inl wrong_arguments, s))"

definition example_exec :: py_exec where
  "example_exec text self =
     (if text = set_n_code then (Inr [''set_n'' \<mapsto> set_n_method], self)
      else if text = touch_code then (Inr [''touch'' \<mapsto> touch_method], self)
      else if text = boom_code then (Inr [''boom'' \<mapsto> boom_method], self)
      else if text = clear_code then (Inr [''clear'' \<mapsto> clear_method], self)
      else if text = echo_code then (Inr [''boom'' \<mapsto> echo_method], self)
      else if text = bump_code then (Inr [''bump'' \<mapsto> bump_method], self)
      else (Inl (Exception ''SyntaxError'' ''invalid syntax''), self))"

definition call_payload :: "string \<Rightarrow> string \<Rightarrow> (string \<Rightarrow> pyval option) \<Rightarrow> ExecutionPayload" where
  "call_payload text name state =
     \<lparr>code = text, method_name = name, object_state = state, args = [], kwargs = Map.empty\<rparr>"

text \<open>
  One more text, a statement: \<open>exec\<close> of it raises \<open>SystemExit\<close> before any name is
  bound. \<open>exit_exec\<close> knows this text only.
\<close>

definition exit_code :: string where
  "exit_code = ''raise SystemExit''"

definition exit_exec :: py_exec where
  "exit_exec text self =
     (if text = exit_code then (Inl (BaseException ''SystemExit'' []), self)
      else (Inl (Exception ''SyntaxError'' ''invalid syntax''), self))"

text \<open>
  What \<open>ast.parse\<close> does with the example texts and with four more: a text that calls
  \<open>open\<close>, a text that reads \<open>__class__\<close> and \<open>__bases__\<close>, a text that returns a sum of
  3001 terms, on which the parser of CPython 3.11 with the default recursion limit raises
  \<open>RecursionError\<close> when it builds the tree, and a text that is not Python.
  \<open>example_parse\<close> takes every other text as one with a syntax error.
\<close>

definition open_code :: string where
  "open_code = ''def leak(self): return open(self)''"

definition reflect_code :: string where
  "reflect_code = ''def peek(self): return self.__class__.__bases__''"

definition deep_code :: string where
  "deep_code = ''def boom(self): return 1'' @ concat (replicate 3000 ''+1'')"

definition recursion_error :: py_exception where
  "recursion_error =
     Exception ''RecursionError'' ''maximum recursion depth exceeded during ast construction''"


definition load :: node where
  "load = Node (Other ''Load'') []"

definition self_name :: node where
  "self_name = Node (Name ''self'') [load]"

definition self_attribute :: "string \<Rightarrow> node \<Rightarrow> node" where
  "self_attribute attr ctx = Node (Attribute attr) [self_name, ctx]"

definition method_def :: "node list \<Rightarrow> node" where
  "method_def body =
     Node (Other ''Module'')
       [Node (Other ''FunctionDef'') (Node (Other ''arguments'') [Node (Other ''arg'') []] # body)]"

definition constant_node :: node where
  "constant_node = Node (Other ''Constant'') []"

definition example_parse :: "string \<Rightarrow> parse_outcome" where
  "example_parse text =
     (if text = set_n_code then
        Parsed (method_def
          [Node (Other ''Expr'')
             [Node (Other ''Call'')
                [Node (Attribute ''update'') [self_attribute ''attributes'' load, load],
                 Node (Other ''keyword'') [constant_node]]]])
      else if text = touch_code then
        Parsed (method_def
          [Node (Other ''Assign'') [self_attribute ''_p_changed'' (Node (Other ''Store'') []), constant_node]])
      else if text = boom_code then
        Parsed (method_def
          [Node (Other ''Expr'')
             [Node (Other ''Call'')
                [Node (Attribute ''update'') [self_attribute ''attributes'' load, load],
                 Node (Other ''keyword'') [constant_node]]],
           Node (Other ''Raise'') [Node (Name ''ValueError'') [load]]])
      else if text = clear_code then
        Parsed (method_def
          [Node (Other ''Expr'')
             [Node (Other ''Call'')
                [Node (Attribute ''clear'') [self_attribute ''attributes'' load, load]]],
           Node (Other ''Assign'') [self_attribute ''_p_changed'' (Node (Other ''Store'') []), constant_node]])
      else if text = echo_code then
        Parsed (method_def [Node (Other ''Return'') [constant_node]])
      else if text = bump_code then
        Parsed (method_def
          [Node (Other ''Expr'')
             [Node (Other ''Call'')
                [Node (Attribute ''update'') [self_attribute ''attributes'' load, load],
                 Node (Other ''keyword'') [constant_node]]],
           Node (Other ''Assign'') [self_attribute ''_p_changed'' (Node (Other ''Store'') []), constant_node]])
      else if text = open_code then
        Parsed (method_def
          [Node (Other ''Return'') [Node (Other ''Call'') [Node (Name ''open'') [load], self_name]]])
      else if text = reflect_code then
        Parsed (method_def
          [Node (Other ''Return'')
             [Node (Attribute ''__bases__'') [self_attribute ''__class__'' load, load]]])
      else if text = deep_code then
        ParseRaises recursion_error
      else SyntaxError)"

text \<open>
  The vocabulary of the properties of resolution. An object declares a method when its
  document exists and its method mapping has the name. \<open>reachable_within es d u v\<close>: some
  walk of at most \<open>d\<close> prototype edges leads from \<open>u\<close> to \<open>v\<close>.
  \<open>trail es u is v\<close>: the edges at the positions \<open>is\<close>, in that order, lead from \<open>u\<close>
  to \<open>v\<close>.
\<close>

definition declares :: "database \<Rightarrow> string \<Rightarrow> string \<Rightarrow> bool" where
  "declares store v name =
     (case UvmObjects store v of None \<Rightarrow> False | Some d \<Rightarrow> doc_methods d name \<noteq> None)"

fun reachable_within :: "(string \<times> string) list \<Rightarrow> nat \<Rightarrow> string \<Rightarrow> string \<Rightarrow> bool" where
  "reachable_within es 0 u v = (u = v)"
| "reachable_within es (Suc d) u v =
     (u = v \<or> list_ex (\<lambda>e. fst e = u \<and> reachable_within es d (snd e) v) es)"

fun trail :: "(string \<times> string) list \<Rightarrow> string \<Rightarrow> nat list \<Rightarrow> string \<Rightarrow> bool" where
  "trail es u [] v = (u = v)"
| "trail es u (i # is) v = (i < length es \<and> fst (es ! i) = u \<and> trail es (snd (es ! i)) is v)"

text \<open>
  Two stores without a nil object at the end of the chain. In \<open>cyclic_db\<close> the objects
  \<open>a\<close> and \<open>b\<close> delegate to each other and declare nothing. In \<open>chain_db\<close> the object
  whose key is \<open>i\<close> letters \<open>a\<close> delegates to the one with \<open>i + 1\<close> letters, for
  every \<open>i\<close> below 101, and the only method is \<open>greet\<close> on the object with 101 letters.
\<close>

definition empty_doc :: document where
  "empty_doc = \<lparr>doc_attributes = Map.empty, doc_methods = Map.empty\<rparr>"

definition cyclic_db :: database where
  "cyclic_db =
     \<lparr>UvmObjects = [''a'' \<mapsto> empty_doc, ''b'' \<mapsto> empty_doc],
      PrototypeLinks = [(''a'', ''b''), (''b'', ''a'')]\<rparr>"

definition chain_key :: "nat \<Rightarrow> string" where
  "chain_key i = replicate i (CHR ''a'')"

definition chain_db :: database where
  "chain_db =
     \<lparr>UvmObjects = (\<lambda>k. if k = chain_key 101
                         then Some \<lparr>doc_attributes = Map.empty, doc_methods = [''greet'' \<mapsto> echo_code]\<rparr>
                         else Some empty_doc),
      PrototypeLinks = map (\<lambda>i. (chain_key i, chain_key (Suc i))) [0..<101]\<rparr>"

text \<open>
  A store in which \<open>child\<close> delegates to \<open>parent\<close> and \<open>parent\<close> to \<open>nil\<close>; only
  \<open>parent\<close> declares methods. A running system on a store, with nothing logged yet. The
  collaborators of the examples: the sandbox endpoint on \<open>example_exec\<close>, the parser
  \<open>example_parse\<close>, and a generator that answers every request with the same text.
\<close>

definition parent_doc :: document where
  "parent_doc =
     \<lparr>doc_attributes = [''a'' \<mapsto> PInt 1, ''b'' \<mapsto> PInt 2],
      doc_methods = [''set_n'' \<mapsto> set_n_code, ''clear'' \<mapsto> clear_code, ''bump'' \<mapsto> bump_code]\<rparr>"

definition child_doc :: document where
  "child_doc = \<lparr>doc_attributes = [''c'' \<mapsto> PInt 3], doc_methods = Map.empty\<rparr>"

definition family_db :: database where
  "family_db =
     \<lparr>UvmObjects = [''child'' \<mapsto> child_doc, ''parent'' \<mapsto> parent_doc, ''nil'' \<mapsto> empty_doc],
      PrototypeLinks = [(''child'', ''parent''), (''parent'', ''nil'')]\<rparr>"

definition running :: "database \<Rightarrow> world" where
  "running store = \<lparr>db = Some store, http_client = True, ollama_client = True, events = []\<rparr>"

definition example_env :: "string \<Rightarrow> env" where
  "example_env generated =
     \<lparr>post = sandbox_endpoint example_exec,
      generate_code = (\<lambda>t name a k. generated),
      ast_parse = example_parse\<rparr>"

text \<open>The attribute mapping of the object \<open>get_object\<close> returns, if it returns one.\<close>

definition stored_attributes :: "world \<Rightarrow> string \<Rightarrow> pyval option" where
  "stored_attributes w object_id =
     (case get_object w object_id of None \<Rightarrow> None | Some obj \<Rightarrow> obj ''attributes'')"

text \<open>
  Three dispatches on that store: \<open>bump\<close> and \<open>set_n\<close> sent to \<open>child\<close>, and \<open>clear\<close>
  sent to \<open>parent\<close>.
\<close>

definition bump_dispatch :: "MethodExecutionResult option \<times> world" where
  "bump_dispatch =
     resolve_and_execute_method (example_env []) (running family_db) ''child'' ''bump'' [] Map.empty"

definition set_n_dispatch :: "MethodExecutionResult option \<times> world" where
  "set_n_dispatch =
     resolve_and_execute_method (example_env []) (running family_db) ''child'' ''set_n'' [] Map.empty"

definition clear_dispatch :: "MethodExecutionResult option \<times> world" where
  "clear_dispatch =
     resolve_and_execute_method (example_env []) (running family_db) ''parent'' ''clear'' [] Map.empty"

text \<open>
  The events of a list that carry a method body to the sandbox or to the store all carry a
  body the auditor passes.
\<close>

definition audited_only :: "(string \<Rightarrow> parse_outcome) \<Rightarrow> event list \<Rightarrow> bool" where
  "audited_only parse es =
     list_all (\<lambda>e. case e of
                      Posted p \<Rightarrow> passes parse (code p)
                    | Installed target name body ok \<Rightarrow> passes parse body
                    | _ \<Rightarrow> True) es"

text \<open>
  The store \<open>genesis.py\<close> creates: \<open>system\<close> delegates to \<open>nil\<close> and neither has
  attributes or methods. \<open>faulty_db\<close> is that store with the method \<open>boom\<close>, whose body
  raises, declared on \<open>system\<close>.
\<close>

definition genesis_db :: database where
  "genesis_db =
     \<lparr>UvmObjects = [''nil'' \<mapsto> empty_doc, ''system'' \<mapsto> empty_doc],
      PrototypeLinks = [(''system'', ''nil'')]\<rparr>"

definition faulty_db :: database where
  "faulty_db =
     \<lparr>UvmObjects = [''nil'' \<mapsto> empty_doc,
                    ''system'' \<mapsto> \<lparr>doc_attributes = Map.empty, doc_methods = [''boom'' \<mapsto> boom_code]\<rparr>],
      PrototypeLinks = [(''system'', ''nil'')]\<rparr>"

text \<open>
  Three requests. \<open>faulty_request\<close>: the message \<open>boom\<close> to \<open>system\<close> on \<open>faulty_db\<close>,
  with a generator that returns a body that works. \<open>looping_request\<close>: the message \<open>boom\<close>
  to \<open>system\<close> on the store of \<open>genesis.py\<close>, with a generator that returns the body that
  raises, every time it is asked. \<open>rejected_request\<close>: the message \<open>leak\<close> to \<open>system\<close>
  on the store of \<open>genesis.py\<close>, with a generator that returns a body that calls \<open>open\<close>.
\<close>

definition faulty_request :: "nat \<Rightarrow> reply \<times> world" where
  "faulty_request fuel =
     process_message (example_env echo_code) fuel (running faulty_db) ''system'' ''boom'' [] Map.empty"

definition looping_request :: "nat \<Rightarrow> reply \<times> world" where
  "looping_request fuel =
     process_message (example_env boom_code) fuel (running genesis_db) ''system'' ''boom'' [] Map.empty"

definition rejected_request :: "nat \<Rightarrow> reply \<times> world" where
  "rejected_request fuel =
     does_not_understand (example_env open_code) fuel (running genesis_db) ''system'' ''leak'' [] Map.empty"

text \<open>
  \<open>unparsable_request\<close>: the message \<open>boom\<close> to \<open>system\<close> on the store of
  \<open>genesis.py\<close>, with a generator that returns the text with the long sum.
\<close>

definition unparsable_request :: "nat \<Rightarrow> reply \<times> world" where
  "unparsable_request fuel =
     process_message (example_env deep_code) fuel (running genesis_db) ''system'' ''boom'' [] Map.empty"

text \<open>
  A fourth request: \<open>does_not_understand\<close> for the message \<open>boom\<close> to \<open>system\<close> on the
  store of \<open>genesis.py\<close>, with a generator that returns a body that works. And the events
  of one round of a request that does not end: the body is run, a body is generated, audited
  and installed.
\<close>

definition accepted_request :: "nat \<Rightarrow> reply \<times> world" where
  "accepted_request fuel =
     does_not_understand (example_env echo_code) fuel (running genesis_db) ''system'' ''boom'' [] Map.empty"

definition generation_round :: "event list" where
  "generation_round =
     [Posted (call_payload boom_code ''boom'' Map.empty),
      Generated boom_code,
      Audited boom_code True,
      Installed ''system'' ''boom'' boom_code True]"

section \<open>Properties\<close>

subsection \<open>The object model\<close>

lemma not_startswith_underscore: "\<not> startswith name ''_'' \<Longrightarrow> name \<noteq> CHR ''_'' # r"
  by (simp add: startswith_def) (cases name; simp)

text \<open>
  Claim C10, as amended. An assignment \<open>obj.name = value\<close> whose name does not start with an
  underscore and is neither \<open>attributes\<close> nor \<open>methods\<close>, on an object whose slot
  \<open>attributes\<close> holds a mapping, stores the value in that mapping under the name and sets
  \<open>_p_changed\<close> to \<open>True\<close>; when the instance dictionary has no slot of that name and the
  name is not one of the class attributes \<open>to_doc\<close> and \<open>from_doc\<close>, reading \<open>obj.name\<close>
  afterwards returns the value. An assignment to an underscore-prefixed name or to
  \<open>attributes\<close> or \<open>methods\<close> (the names \<open>object\<close> serves by descriptors apart) writes the
  slot of that name and nothing else: it adds no entry to the attribute mapping, and
  \<open>_p_changed\<close> and the mapping keep their values unless the name assigned is
  \<open>_p_changed\<close> or \<open>attributes\<close> itself.
\<close>

theorem uvm_setattr_getattr:
  "(\<not> startswith name ''_'' \<and> name \<notin> set [''attributes'', ''methods'']
      \<and> obj ''attributes'' = Some (PDict d) \<longrightarrow>
        UvmObject_setattr obj name v
          = Inr (obj(''attributes'' \<mapsto> PDict (d(name \<mapsto> v)), ''_p_changed'' \<mapsto> PBool True))
        \<and> (obj name = None \<and> name \<notin> set [''to_doc'', ''from_doc'']
             \<longrightarrow> assign_then_read obj name v = Inr (Value v)))
   \<and> ((startswith name ''_'' \<or> name \<in> set [''attributes'', ''methods''])
        \<and> name \<notin> set [''__dict__'', ''__class__'', ''__weakref__''] \<longrightarrow>
        UvmObject_setattr obj name v = Inr (obj(name \<mapsto> v)))"
proof (intro conjI impI)
  assume h: "\<not> startswith name ''_'' \<and> name \<notin> set [''attributes'', ''methods'']
      \<and> obj ''attributes'' = Some (PDict d)"
  then have us: "\<not> startswith name ''_''" and na: "name \<noteq> ''attributes''"
    and nm: "name \<noteq> ''methods''" and oa: "obj ''attributes'' = Some (PDict d)"
    by simp_all
  have np: "name \<noteq> ''_p_changed''"
    by (rule not_startswith_underscore [OF us])
  have br: "\<not> (startswith name ''_'' \<or> name \<in> set [''attributes'', ''methods''])"
    using us na nm by simp
  have os: "object_setattr (obj(''attributes'' \<mapsto> PDict (d(name \<mapsto> v)))) ''_p_changed'' (PBool True)
      = Inr (obj(''attributes'' \<mapsto> PDict (d(name \<mapsto> v)), ''_p_changed'' \<mapsto> PBool True))"
    by (simp add: object_setattr_def)
  show s: "UvmObject_setattr obj name v
          = Inr (obj(''attributes'' \<mapsto> PDict (d(name \<mapsto> v)), ''_p_changed'' \<mapsto> PBool True))"
    unfolding UvmObject_setattr_def using br oa os
    by (simp add: self_attributes_def py_setitem_def)
  assume r: "obj name = None \<and> name \<notin> set [''to_doc'', ''from_doc'']"
  have nc: "name \<notin> set class_namespace"
    using r not_startswith_underscore [OF us] by (simp add: class_namespace_def)
  have look: "(obj(''attributes'' \<mapsto> PDict (d(name \<mapsto> v)), ''_p_changed'' \<mapsto> PBool True)) name = None"
    using r na np by simp
  have attrs: "self_attributes (obj(''attributes'' \<mapsto> PDict (d(name \<mapsto> v)), ''_p_changed'' \<mapsto> PBool True))
      = Inr (PDict (d(name \<mapsto> v)))"
    by (simp add: self_attributes_def)
  have "UvmObject_getattr (obj(''attributes'' \<mapsto> PDict (d(name \<mapsto> v)), ''_p_changed'' \<mapsto> PBool True)) name
      = Inr (Value v)"
    unfolding UvmObject_getattr_def attrs by (simp add: py_in_def py_getitem_def)
  then show "assign_then_read obj name v = Inr (Value v)"
    unfolding assign_then_read_def s read_attribute_def using look nc by simp
next
  assume h: "(startswith name ''_'' \<or> name \<in> set [''attributes'', ''methods''])
        \<and> name \<notin> set [''__dict__'', ''__class__'', ''__weakref__'']"
  then have br: "startswith name ''_'' \<or> name \<in> set [''attributes'', ''methods'']"
    and sp: "name \<noteq> ''__dict__''" "name \<noteq> ''__class__''" "name \<noteq> ''__weakref__''"
    by simp_all
  show "UvmObject_setattr obj name v = Inr (obj(name \<mapsto> v))"
    unfolding UvmObject_setattr_def object_setattr_def using br sp by simp
qed

text \<open>
  The theorem at the names \<open>color\<close> and \<open>_cache\<close> on a freshly built object.
\<close>

theorem uvm_setattr_getattr_witness:
  "\<not> startswith ''color'' ''_'' \<and> ''color'' \<notin> set [''attributes'', ''methods'']
   \<and> UvmObject_init None None None None ''attributes'' = Some (PDict Map.empty)
   \<and> UvmObject_init None None None None ''color'' = None
   \<and> ''color'' \<notin> set [''to_doc'', ''from_doc'']
   \<and> UvmObject_setattr (UvmObject_init None None None None) ''color'' (PStr ''red'')
       = Inr ((UvmObject_init None None None None)
               (''attributes'' \<mapsto> PDict [''color'' \<mapsto> PStr ''red''], ''_p_changed'' \<mapsto> PBool True))
   \<and> assign_then_read (UvmObject_init None None None None) ''color'' (PStr ''red'')
       = Inr (Value (PStr ''red''))
   \<and> startswith ''_cache'' ''_''
   \<and> ''_cache'' \<notin> set [''__dict__'', ''__class__'', ''__weakref__'']
   \<and> UvmObject_setattr (UvmObject_init None None None None) ''_cache'' (PInt 1)
       = Inr ((UvmObject_init None None None None)(''_cache'' \<mapsto> PInt 1))"
proof -
  have a: "\<not> startswith ''color'' ''_'' \<and> ''color'' \<notin> set [''attributes'', ''methods'']
      \<and> UvmObject_init None None None None ''attributes'' = Some (PDict Map.empty)"
    by (simp add: startswith_def UvmObject_init_def)
  have b: "UvmObject_init None None None None ''color'' = None
      \<and> ''color'' \<notin> set [''to_doc'', ''from_doc'']"
    by (simp add: UvmObject_init_def)
  have c: "(startswith ''_cache'' ''_'' \<or> ''_cache'' \<in> set [''attributes'', ''methods''])
      \<and> ''_cache'' \<notin> set [''__dict__'', ''__class__'', ''__weakref__'']"
    by (simp add: startswith_def)
  note t1 = uvm_setattr_getattr [of "''color''" "UvmObject_init None None None None" Map.empty
      "PStr ''red''", THEN conjunct1, THEN mp, OF a]
  note t2 = uvm_setattr_getattr [of "''_cache''" "UvmObject_init None None None None" Map.empty
      "PInt 1", THEN conjunct2, THEN mp, OF c]
  from a b c t1 [THEN conjunct1] t1 [THEN conjunct2, THEN mp, OF b] t2
  show ?thesis by simp
qed

text \<open>
  Claim C10 as written fails at two names. \<open>to_doc\<close> does not start with an underscore, yet
  after \<open>obj.to_doc = 5\<close> the read \<open>obj.to_doc\<close> finds the method of the class and
  \<open>__getattr__\<close> is never asked. \<open>_p_changed\<close> starts with an underscore, and assigning
  \<open>True\<close> to it on a fresh object changes \<open>_p_changed\<close> from \<open>False\<close> to \<open>True\<close>.
\<close>

theorem uvm_setattr_counterexample:
  "assign_then_read (UvmObject_init None None None None) ''to_doc'' (PInt 5)
     = Inr (ClassAttribute ''to_doc'')
   \<and> UvmObject_init None None None None ''_p_changed'' = Some (PBool False)
   \<and> UvmObject_setattr (UvmObject_init None None None None) ''_p_changed'' (PBool True)
     = Inr ((UvmObject_init None None None None)(''_p_changed'' \<mapsto> PBool True))"
  by (simp add: assign_then_read_def UvmObject_setattr_def startswith_def self_attributes_def
      py_setitem_def object_setattr_def read_attribute_def class_namespace_def UvmObject_init_def)

subsection \<open>The sandbox\<close>

lemma code_distinct:
  "set_n_code \<noteq> touch_code" "set_n_code \<noteq> boom_code" "set_n_code \<noteq> clear_code" "set_n_code \<noteq> echo_code"
  "touch_code \<noteq> boom_code" "touch_code \<noteq> clear_code" "touch_code \<noteq> echo_code"
  "boom_code \<noteq> clear_code" "boom_code \<noteq> echo_code" "clear_code \<noteq> echo_code"
  "bump_code \<noteq> set_n_code" "bump_code \<noteq> touch_code" "bump_code \<noteq> boom_code"
  "bump_code \<noteq> clear_code" "bump_code \<noteq> echo_code"
  by (simp_all add: set_n_code_def touch_code_def boom_code_def clear_code_def echo_code_def
      bump_code_def)

lemma example_exec_simps:
  "example_exec set_n_code s = (Inr [''set_n'' \<mapsto> set_n_method], s)"
  "example_exec touch_code s = (Inr [''touch'' \<mapsto> touch_method], s)"
  "example_exec boom_code s = (Inr [''boom'' \<mapsto> boom_method], s)"
  "example_exec clear_code s = (Inr [''clear'' \<mapsto> clear_method], s)"
  "example_exec echo_code s = (Inr [''boom'' \<mapsto> echo_method], s)"
  "example_exec bump_code s = (Inr [''bump'' \<mapsto> bump_method], s)"
  using code_distinct by (simp_all add: example_exec_def)

lemma execute_set_n:
  "execute_code example_exec (call_payload set_n_code ''set_n'' st)
     = Inr \<lparr>output_value = PNone, state_changed = False, final_state = st(''n'' \<mapsto> PInt 1), error = None\<rparr>"
  by (simp add: execute_code_def call_payload_def example_exec_simps deepcopy_def
      set_n_method_def no_arguments_def)

lemma execute_touch:
  "execute_code example_exec (call_payload touch_code ''touch'' st)
     = Inr \<lparr>output_value = PNone, state_changed = True, final_state = st, error = None\<rparr>"
  by (simp add: execute_code_def call_payload_def example_exec_simps deepcopy_def
      touch_method_def no_arguments_def)

lemma execute_clear:
  "execute_code example_exec (call_payload clear_code ''clear'' st)
     = Inr \<lparr>output_value = PNone, state_changed = True, final_state = Map.empty, error = None\<rparr>"
  by (simp add: execute_code_def call_payload_def example_exec_simps deepcopy_def
      clear_method_def no_arguments_def)

lemma execute_echo:
  "execute_code example_exec (call_payload echo_code ''boom'' st)
     = Inr \<lparr>output_value = PInt 1, state_changed = False, final_state = st, error = None\<rparr>"
  by (simp add: execute_code_def call_payload_def example_exec_simps deepcopy_def
      echo_method_def no_arguments_def)

lemma raised_exit:
  "raised exit_exec (call_payload exit_code name st) = Some (BaseException ''SystemExit'' [])"
  by (simp add: raised_def call_payload_def exit_exec_def)

lemma raised_boom:
  "raised example_exec (call_payload boom_code ''boom'' st) = Some (Exception ''ValueError'' [])"
  by (simp add: raised_def call_payload_def example_exec_simps deepcopy_def
      boom_method_def no_arguments_def)

text \<open>
  Claim C3, as amended. When the body returns, the sandbox reports as \<open>state_changed\<close> the
  value the proxy's flag \<open>_p_changed\<close> has at that moment, and as \<open>final_state\<close> the
  attribute mapping the proxy holds at that moment, whatever the flag says. The flag starts
  false and only the body sets it; the two mappings are never compared.
\<close>

theorem sandbox_reports_flag:
  assumes "exec (code p) \<lparr>attributes = deepcopy (object_state p), p_changed = False\<rparr> = (Inr ns, s1)"
    and "ns (method_name p) = Some f"
    and "f s1 (args p) (kwargs p) = (Inr out, s2)"
  shows "execute_code exec p =
     Inr \<lparr>output_value = out, state_changed = p_changed s2, final_state = attributes s2,
          error = None\<rparr>"
  using assms by (simp add: execute_code_def)

text \<open>The theorem at the method \<open>set_n\<close> run on an object without attributes.\<close>

theorem sandbox_reports_flag_witness:
  "example_exec (code (call_payload set_n_code ''set_n'' Map.empty))
       \<lparr>attributes = deepcopy (object_state (call_payload set_n_code ''set_n'' Map.empty)), p_changed = False\<rparr>
     = (Inr [''set_n'' \<mapsto> set_n_method], \<lparr>attributes = Map.empty, p_changed = False\<rparr>)
   \<and> [''set_n'' \<mapsto> set_n_method] (method_name (call_payload set_n_code ''set_n'' Map.empty))
     = Some set_n_method
   \<and> set_n_method \<lparr>attributes = Map.empty, p_changed = False\<rparr>
         (args (call_payload set_n_code ''set_n'' Map.empty)) (kwargs (call_payload set_n_code ''set_n'' Map.empty))
      = (Inr PNone, \<lparr>attributes = [''n'' \<mapsto> PInt 1], p_changed = False\<rparr>)
   \<and> execute_code example_exec (call_payload set_n_code ''set_n'' Map.empty) =
     Inr \<lparr>output_value = PNone,
          state_changed = p_changed \<lparr>attributes = [''n'' \<mapsto> PInt 1], p_changed = False\<rparr>,
          final_state = attributes \<lparr>attributes = [''n'' \<mapsto> PInt 1], p_changed = False\<rparr>,
          error = None\<rparr>"
proof -
  have a: "example_exec (code (call_payload set_n_code ''set_n'' Map.empty))
       \<lparr>attributes = deepcopy (object_state (call_payload set_n_code ''set_n'' Map.empty)), p_changed = False\<rparr>
     = (Inr [''set_n'' \<mapsto> set_n_method], \<lparr>attributes = Map.empty, p_changed = False\<rparr>)"
    by (simp add: call_payload_def example_exec_simps deepcopy_def)
  have b: "[''set_n'' \<mapsto> set_n_method] (method_name (call_payload set_n_code ''set_n'' Map.empty))
     = Some set_n_method"
    by (simp add: call_payload_def)
  have c: "set_n_method \<lparr>attributes = Map.empty, p_changed = False\<rparr>
         (args (call_payload set_n_code ''set_n'' Map.empty)) (kwargs (call_payload set_n_code ''set_n'' Map.empty))
      = (Inr PNone, \<lparr>attributes = [''n'' \<mapsto> PInt 1], p_changed = False\<rparr>)"
    by (simp add: call_payload_def set_n_method_def no_arguments_def)
  note d = sandbox_reports_flag [of example_exec "call_payload set_n_code ''set_n'' Map.empty"
      "[''set_n'' \<mapsto> set_n_method]" "\<lparr>attributes = Map.empty, p_changed = False\<rparr>" set_n_method
      PNone "\<lparr>attributes = [''n'' \<mapsto> PInt 1], p_changed = False\<rparr>", OF a b c]
  show ?thesis by (intro conjI a b c d)
qed

text \<open>
  Claim C3 as written fails in both directions. \<open>set_n\<close> adds the attribute \<open>n\<close> and
  does not touch the flag: the mapping differs from the snapshot and \<open>state_changed\<close> is
  false. \<open>touch\<close> sets the flag and changes no attribute: the mappings are equal and
  \<open>state_changed\<close> is true.
\<close>

theorem sandbox_value_comparison_counterexample:
  "execute_code example_exec (call_payload set_n_code ''set_n'' Map.empty)
     = Inr \<lparr>output_value = PNone, state_changed = False, final_state = [''n'' \<mapsto> PInt 1],
            error = None\<rparr>
   \<and> object_state (call_payload set_n_code ''set_n'' Map.empty) ''n'' = None
   \<and> execute_code example_exec (call_payload touch_code ''touch'' Map.empty)
     = Inr \<lparr>output_value = PNone, state_changed = True,
            final_state = object_state (call_payload touch_code ''touch'' Map.empty),
            error = None\<rparr>"
  by (simp add: execute_set_n execute_touch) (simp add: call_payload_def)

text \<open>
  Claim C9, as amended. When an exception whose type derives from \<open>Exception\<close> leaves the
  \<open>try\<close> block (raised by \<open>exec\<close>, by the check that the name is callable, or by the
  call), the response has \<open>output\<close> null, \<open>state_changed\<close> false and \<open>final_state\<close>
  equal to the mapping of the request, whatever the body did to the proxy before it raised;
  \<open>error\<close> is the name of the exception's type, a colon and its message. An exception
  whose type does not derive from \<open>Exception\<close> is not caught: it leaves \<open>execute_code\<close>
  and there is no response of this form.
\<close>

theorem sandbox_exception_response:
  "(raised exec p = Some (Exception type_name msg) \<longrightarrow>
      execute_code exec p =
        Inr \<lparr>output_value = PNone, state_changed = False, final_state = object_state p,
             error = Some (type_name @ '': '' @ msg)\<rparr>)
   \<and> (raised exec p = Some (BaseException type_name msg) \<longrightarrow>
      execute_code exec p = Inl (BaseException type_name msg))"
  by (auto simp: raised_def execute_code_def execution_error_def
      split: prod.splits sum.splits option.splits py_exception.splits)

text \<open>
  The theorem at the method \<open>boom\<close>, which adds the attribute \<open>n\<close> to the proxy and
  then raises, run on an object with the attribute \<open>a\<close>.
\<close>

theorem sandbox_exception_response_witness:
  "raised example_exec (call_payload boom_code ''boom'' [''a'' \<mapsto> PInt 7]) = Some (Exception ''ValueError'' [])
   \<and> execute_code example_exec (call_payload boom_code ''boom'' [''a'' \<mapsto> PInt 7]) =
     Inr \<lparr>output_value = PNone, state_changed = False,
          final_state = object_state (call_payload boom_code ''boom'' [''a'' \<mapsto> PInt 7]),
          error = Some (''ValueError'' @ '': '' @ [])\<rparr>
   \<and> raised exit_exec (call_payload exit_code ''stop'' [''a'' \<mapsto> PInt 7])
       = Some (BaseException ''SystemExit'' [])
   \<and> execute_code exit_exec (call_payload exit_code ''stop'' [''a'' \<mapsto> PInt 7])
       = Inl (BaseException ''SystemExit'' [])"
proof -
  note b = raised_boom [of "[''a'' \<mapsto> PInt 7]"]
  note e = raised_exit [of "''stop''" "[''a'' \<mapsto> PInt 7]"]
  note t1 = sandbox_exception_response [of example_exec "call_payload boom_code ''boom'' [''a'' \<mapsto> PInt 7]"
      "''ValueError''" "[]", THEN conjunct1, THEN mp, OF b]
  note t2 = sandbox_exception_response [of exit_exec "call_payload exit_code ''stop'' [''a'' \<mapsto> PInt 7]"
      "''SystemExit''" "[]", THEN conjunct2, THEN mp, OF e]
  show ?thesis by (intro conjI b t1 e t2)
qed

text \<open>
  Claim C9 as written fails for an exception that \<open>except Exception\<close> does not catch: the
  text \<open>raise SystemExit\<close> raises when \<open>exec\<close> runs it, the exception leaves
  \<open>execute_code\<close>, and the sandbox gives no response with \<open>output\<close>, \<open>state_changed\<close>
  and \<open>final_state\<close>.
\<close>

theorem sandbox_uncaught_exception_counterexample:
  "raised exit_exec (call_payload exit_code ''stop'' Map.empty) = Some (BaseException ''SystemExit'' [])
   \<and> execute_code exit_exec (call_payload exit_code ''stop'' Map.empty)
       = Inl (BaseException ''SystemExit'' [])"
  by (simp add: raised_def execute_code_def execution_error_def call_payload_def exit_exec_def)

subsection \<open>The auditor\<close>







lemma example_parse_echo:
  "example_parse echo_code = Parsed (method_def [Node (Other ''Return'') [constant_node]])"
  using code_distinct by (simp add: example_parse_def)

lemma example_parse_boom:
  "example_parse boom_code = Parsed (method_def
          [Node (Other ''Expr'')
             [Node (Other ''Call'')
                [Node (Attribute ''update'') [self_attribute ''attributes'' load, load],
                 Node (Other ''keyword'') [constant_node]]],
           Node (Other ''Raise'') [Node (Name ''ValueError'') [load]]])"
  using code_distinct by (simp add: example_parse_def)

lemma open_code_distinct:
  "open_code \<noteq> set_n_code" "open_code \<noteq> touch_code" "open_code \<noteq> boom_code"
  "open_code \<noteq> clear_code" "open_code \<noteq> echo_code" "open_code \<noteq> bump_code"
  by (simp_all add: open_code_def set_n_code_def touch_code_def boom_code_def clear_code_def
      echo_code_def bump_code_def)


lemma length_deep_code: "length deep_code = 6024"
  by (simp add: deep_code_def length_concat sum_list_replicate)

lemma deep_code_distinct:
  "deep_code \<noteq> set_n_code" "deep_code \<noteq> touch_code" "deep_code \<noteq> boom_code"
  "deep_code \<noteq> clear_code" "deep_code \<noteq> echo_code" "deep_code \<noteq> bump_code"
  "deep_code \<noteq> open_code" "deep_code \<noteq> reflect_code"
proof -
  have "length deep_code \<noteq> length c \<Longrightarrow> deep_code \<noteq> c" for c by auto
  then show "deep_code \<noteq> set_n_code" "deep_code \<noteq> touch_code" "deep_code \<noteq> boom_code"
    "deep_code \<noteq> clear_code" "deep_code \<noteq> echo_code" "deep_code \<noteq> bump_code"
    "deep_code \<noteq> open_code" "deep_code \<noteq> reflect_code"
    by (simp_all add: length_deep_code reflect_code_def open_code_def set_n_code_def touch_code_def
        boom_code_def clear_code_def echo_code_def bump_code_def)
qed


lemma example_parse_open:
  "example_parse open_code = Parsed (method_def
          [Node (Other ''Return'') [Node (Other ''Call'') [Node (Name ''open'') [load], self_name]]])"
  using open_code_distinct by (simp add: example_parse_def)


lemma example_parse_deep: "example_parse deep_code = ParseRaises recursion_error"
  using deep_code_distinct by (simp add: example_parse_def)


lemma audit_echo: "audit example_parse echo_code = Inr True"
  by (simp add: audit_def example_parse_echo walk_def method_def_def constant_node_def denylist_def)

lemma audit_boom: "audit example_parse boom_code = Inr True"
  by (simp add: audit_def example_parse_boom walk_def method_def_def constant_node_def denylist_def
      self_attribute_def self_name_def load_def name_denylist_def)

lemma audit_open: "audit example_parse open_code = Inr False"
  by (simp add: audit_def example_parse_open walk_def method_def_def constant_node_def denylist_def
      self_attribute_def self_name_def load_def name_denylist_def)


lemma audit_deep: "audit example_parse deep_code = Inl recursion_error"
  by (simp add: audit_def example_parse_deep)




subsection \<open>Resolution\<close>

lemma traversal_reachable:
  "v \<in> set (traversal es d path u) \<Longrightarrow> reachable_within es d u v"
proof (induction d arbitrary: path u)
  case 0
  then show ?case by simp
next
  case (Suc d)
  show ?case
  proof (cases "v = u")
    case True
    then show ?thesis by simp
  next
    case False
    with Suc.prems obtain i where i: "i < length es" "fst (es ! i) = u"
      and v: "v \<in> set (traversal es d (i # path) (snd (es ! i)))"
      by auto
    from Suc.IH [OF v] have "reachable_within es d (snd (es ! i)) v" .
    moreover have "es ! i \<in> set es" using i by simp
    ultimately have "list_ex (\<lambda>e. fst e = u \<and> reachable_within es d (snd e) v) es"
      using i unfolding list_ex_iff by blast
    then show ?thesis by simp
  qed
qed

lemma traversal_starts: "\<exists>rest. traversal es d path u = u # rest"
  by (cases d) simp_all

lemma method_entry_declares:
  "method_entry store name v = None \<longleftrightarrow> \<not> declares store v name"
  by (simp add: method_entry_def declares_def split: option.splits)

lemma method_entry_Some:
  "method_entry store name v = Some r \<Longrightarrow>
     \<exists>d c. r = (v, d, c) \<and> UvmObjects store v = Some d \<and> doc_methods d name = Some c"
  by (auto simp: method_entry_def split: option.splits)

lemma map_filter_empty:
  "(\<And>x. x \<in> set xs \<Longrightarrow> f x = None) \<Longrightarrow> List.map_filter f xs = []"
  by (induction xs) (simp_all add: List.map_filter_simps)

lemma set_map_filter:
  "r \<in> set (List.map_filter f xs) \<Longrightarrow> \<exists>x \<in> set xs. f x = Some r"
  by (induction xs) (auto simp: List.map_filter_simps split: option.splits)

lemma aql_query_hit_at_start:
  assumes "UvmObjects store start = Some d" and "doc_methods d name = Some c"
  shows "aql_query store start name = [(start, d, c)]"
proof -
  obtain rest where "traversal (PrototypeLinks store) 100 [] start = start # rest"
    using traversal_starts by blast
  moreover have "method_entry store name start = Some (start, d, c)"
    using assms by (simp add: method_entry_def)
  ultimately show ?thesis
    by (simp add: aql_query_def List.map_filter_simps)
qed

lemma aql_query_miss:
  assumes "\<And>v. reachable_within (PrototypeLinks store) 100 start v \<Longrightarrow> \<not> declares store v name"
  shows "aql_query store start name = []"
proof -
  have "List.map_filter (method_entry store name) (traversal (PrototypeLinks store) 100 [] start) = []"
  proof (rule map_filter_empty)
    fix v assume "v \<in> set (traversal (PrototypeLinks store) 100 [] start)"
    then have "reachable_within (PrototypeLinks store) 100 start v" by (rule traversal_reachable)
    then show "method_entry store name v = None"
      using assms by (simp add: method_entry_declares)
  qed
  then show ?thesis by (simp add: aql_query_def)
qed

lemma aql_query_sound:
  assumes "(v, d, c) \<in> set (aql_query store start name)"
  shows "reachable_within (PrototypeLinks store) 100 start v \<and> UvmObjects store v = Some d
         \<and> doc_methods d name = Some c"
proof -
  from assms have "(v, d, c) \<in> set (List.map_filter (method_entry store name)
      (traversal (PrototypeLinks store) 100 [] start))"
    unfolding aql_query_def by (rule in_set_takeD)
  then obtain x where x: "x \<in> set (traversal (PrototypeLinks store) 100 [] start)"
    and e: "method_entry store name x = Some (v, d, c)"
    using set_map_filter by fastforce
  from method_entry_Some [OF e] have "x = v" "UvmObjects store v = Some d" "doc_methods d name = Some c"
    by auto
  with traversal_reachable [OF x] show ?thesis by simp
qed

text \<open>
  The traversal misses no object within the bound. A walk of at most \<open>d\<close> edges can be cut
  down to one that takes no edge twice, and the traversal follows every such walk.
\<close>

lemma trail_traversal:
  "\<lbrakk>trail es u is v; distinct is; set is \<inter> set path = {}; length is \<le> d\<rbrakk>
   \<Longrightarrow> v \<in> set (traversal es d path u)"
proof (induction "is" arbitrary: u d path)
  case Nil
  then show ?case using traversal_starts [of es d path u] by auto
next
  case (Cons i "is")
  from Cons.prems(4) obtain d' where d: "d = Suc d'" "length is \<le> d'"
    by (cases d) auto
  from Cons.prems(1) have i: "i < length es" "fst (es ! i) = u"
    and t: "trail es (snd (es ! i)) is v"
    by simp_all
  from Cons.prems(2,3) have n: "i \<notin> set path" "distinct is" "set is \<inter> set (i # path) = {}"
    by auto
  have "v \<in> set (traversal es d' (i # path) (snd (es ! i)))"
    by (rule Cons.IH [OF t n(2,3) d(2)])
  moreover have "i \<in> set (filter (\<lambda>i. fst (es ! i) = u \<and> i \<notin> set path) [0..<length es])"
    using i n(1) by simp
  ultimately show ?case unfolding d(1) by (simp del: set_filter) blast
qed

lemma reachable_trail:
  "reachable_within es d u v \<Longrightarrow> \<exists>is. trail es u is v \<and> length is \<le> d"
proof (induction d arbitrary: u)
  case 0
  then have "trail es u [] v" by simp
  then show ?case by (intro exI [of _ "[]"]) simp
next
  case (Suc d)
  show ?case
  proof (cases "u = v")
    case True
    then have "trail es u [] v" by simp
    then show ?thesis by (intro exI [of _ "[]"]) simp
  next
    case False
    with Suc.prems obtain e where e: "e \<in> set es" "fst e = u"
      and r: "reachable_within es d (snd e) v"
      by (auto simp: list_ex_iff)
    from e(1) obtain i where i: "i < length es" "es ! i = e"
      by (auto simp: in_set_conv_nth)
    from Suc.IH [OF r] obtain js where js: "trail es (snd e) js v" "length js \<le> d" by blast
    have "trail es u (i # js) v" using i e(2) js(1) by simp
    moreover have "length (i # js) \<le> Suc d" using js(2) by simp
    ultimately show ?thesis by blast
  qed
qed

lemma trail_append:
  "trail es u (xs @ ys) v = (\<exists>w. trail es u xs w \<and> trail es w ys v)"
  by (induction xs arbitrary: u) auto

lemma trail_distinct:
  "trail es u is v \<Longrightarrow> \<exists>js. trail es u js v \<and> distinct js \<and> length js \<le> length is"
proof (induction "length is" arbitrary: "is" rule: less_induct)
  case less
  show ?case
  proof (cases "distinct is")
    case True
    with less.prems show ?thesis by blast
  next
    case False
    then obtain xs ys zs y where dec: "is = xs @ [y] @ ys @ [y] @ zs"
      using not_distinct_decomp by blast
    from less.prems obtain w1 where w1: "trail es u xs w1" "trail es w1 (y # ys @ y # zs) v"
      unfolding dec by (auto simp: trail_append)
    from w1(2) have "trail es w1 ((y # ys) @ (y # zs)) v" by simp
    then obtain w2 where w2: "trail es w1 (y # ys) w2" "trail es w2 (y # zs) v"
      unfolding trail_append by blast
    from w1(2) w2(2) have "w1 = w2" by simp
    with w1(1) w2(2) have short: "trail es u (xs @ y # zs) v"
      by (auto simp: trail_append)
    have "length (xs @ y # zs) < length is" by (simp add: dec)
    from less.hyps [OF this short] obtain js where
      "trail es u js v" "distinct js" "length js \<le> length (xs @ y # zs)" by blast
    moreover have "length (xs @ y # zs) \<le> length is" by (simp add: dec)
    ultimately show ?thesis by (meson le_trans)
  qed
qed

lemma reachable_traversal:
  assumes "reachable_within es d u v"
  shows "v \<in> set (traversal es d [] u)"
proof -
  from reachable_trail [OF assms] obtain is0 where "trail es u is0 v" "length is0 \<le> d" by blast
  with trail_distinct [of es u is0 v] obtain js where
    "trail es u js v" "distinct js" "length js \<le> d" by (meson le_trans)
  then show ?thesis by (intro trail_traversal) simp_all
qed

lemma map_filter_nonempty:
  "\<lbrakk>x \<in> set xs; f x \<noteq> None\<rbrakk> \<Longrightarrow> List.map_filter f xs \<noteq> []"
  by (induction xs) (auto simp: List.map_filter_simps split: option.splits)

lemma aql_query_complete:
  assumes "reachable_within (PrototypeLinks store) 100 start v" and "declares store v name"
  shows "\<exists>u d c. aql_query store start name = [(u, d, c)]"
proof -
  have "v \<in> set (traversal (PrototypeLinks store) 100 [] start)"
    using assms(1) by (rule reachable_traversal)
  moreover have "method_entry store name v \<noteq> None"
    using assms(2) by (simp add: method_entry_declares)
  ultimately have "List.map_filter (method_entry store name)
      (traversal (PrototypeLinks store) 100 [] start) \<noteq> []"
    by (rule map_filter_nonempty)
  then obtain x rest where "List.map_filter (method_entry store name)
      (traversal (PrototypeLinks store) 100 [] start) = x # rest"
    by (cases "List.map_filter (method_entry store name)
      (traversal (PrototypeLinks store) 100 [] start)") auto
  then have "aql_query store start name = [x]"
    by (simp add: aql_query_def)
  then show ?thesis by (cases x) auto
qed

text \<open>
  Claim C6. Resolution is a total function: the walk is a recursion on the depth that is left,
  starting with 100 at the start object. An object that declares the method is its own
  answer at depth 0. Every answer is an object that some walk of at most 100 prototype edges
  reaches from the start object and that declares the method. When no object within that
  bound declares the method, whether the chain is longer than the bound or runs in a circle,
  the query is empty and \<open>resolve_and_execute_method\<close> returns \<open>None\<close> and leaves the
  world as it was. When some object within the bound declares the method, the walk does not
  miss it: the query has one answer, an object within the bound that declares the method.
\<close>

theorem resolution_bounded:
  "(\<forall>d c. UvmObjects store start = Some d \<and> doc_methods d name = Some c
        \<longrightarrow> aql_query store start name = [(start, d, c)])
   \<and> (\<forall>v d c. (v, d, c) \<in> set (aql_query store start name)
        \<longrightarrow> reachable_within (PrototypeLinks store) 100 start v
            \<and> UvmObjects store v = Some d \<and> doc_methods d name = Some c)
   \<and> ((\<forall>v. reachable_within (PrototypeLinks store) 100 start v \<longrightarrow> \<not> declares store v name)
        \<longrightarrow> aql_query store start name = []
            \<and> (\<forall>E w a k. db w = Some store
                  \<longrightarrow> resolve_and_execute_method E w start name a k = (None, w)))
   \<and> ((\<exists>v. reachable_within (PrototypeLinks store) 100 start v \<and> declares store v name)
        \<longrightarrow> (\<exists>v d c. aql_query store start name = [(v, d, c)]
               \<and> reachable_within (PrototypeLinks store) 100 start v
               \<and> UvmObjects store v = Some d \<and> doc_methods d name = Some c))"
proof (intro conjI allI impI)
  fix d c assume "UvmObjects store start = Some d \<and> doc_methods d name = Some c"
  then show "aql_query store start name = [(start, d, c)]"
    using aql_query_hit_at_start by blast
next
  fix v d c assume "(v, d, c) \<in> set (aql_query store start name)"
  from aql_query_sound [OF this]
  show "reachable_within (PrototypeLinks store) 100 start v"
    and "UvmObjects store v = Some d" and "doc_methods d name = Some c"
    by simp_all
next
  assume h: "\<forall>v. reachable_within (PrototypeLinks store) 100 start v \<longrightarrow> \<not> declares store v name"
  then show q: "aql_query store start name = []"
    using aql_query_miss by blast
  fix E :: env and w :: world and a k
  assume "db w = Some store"
  then show "resolve_and_execute_method E w start name a k = (None, w)"
    by (simp add: resolve_and_execute_method_def q)
next
  assume "\<exists>v. reachable_within (PrototypeLinks store) 100 start v \<and> declares store v name"
  then obtain v where "reachable_within (PrototypeLinks store) 100 start v" "declares store v name"
    by blast
  from aql_query_complete [OF this] obtain u d c where q: "aql_query store start name = [(u, d, c)]"
    by blast
  then have "(u, d, c) \<in> set (aql_query store start name)" by simp
  from aql_query_sound [OF this] q
  show "\<exists>v d c. aql_query store start name = [(v, d, c)]
               \<and> reachable_within (PrototypeLinks store) 100 start v
               \<and> UvmObjects store v = Some d \<and> doc_methods d name = Some c"
    by blast
qed

lemma cyclic_declares: "\<not> declares cyclic_db v name"
  by (simp add: declares_def cyclic_db_def empty_doc_def)

lemma chain_key_inj: "chain_key i = chain_key j \<longleftrightarrow> i = j"
  by (auto simp: chain_key_def dest: arg_cong [where f = length])

lemma chain_reachable:
  "reachable_within (PrototypeLinks chain_db) d (chain_key i) v \<Longrightarrow> \<exists>j. v = chain_key j \<and> j \<le> i + d"
proof (induction d arbitrary: i)
  case 0
  then show ?case by auto
next
  case (Suc d)
  show ?case
  proof (cases "chain_key i = v")
    case True
    then show ?thesis by auto
  next
    case False
    with Suc.prems obtain e where e: "e \<in> set (PrototypeLinks chain_db)" "fst e = chain_key i"
      and r: "reachable_within (PrototypeLinks chain_db) d (snd e) v"
      by (auto simp: list_ex_iff)
    from e have "snd e = chain_key (Suc i)"
      by (auto simp: chain_db_def chain_key_inj)
    with r Suc.IH [of "Suc i"] obtain j where "v = chain_key j" "j \<le> Suc i + d" by auto
    then show ?thesis by auto
  qed
qed

lemma chain_reaches:
  "i + d \<le> 101 \<Longrightarrow> reachable_within (PrototypeLinks chain_db) d (chain_key i) (chain_key (i + d))"
proof (induction d arbitrary: i)
  case 0
  show ?case by simp
next
  case (Suc d)
  from Suc.prems have "Suc i + d \<le> 101" by simp
  from Suc.IH [OF this]
  have r: "reachable_within (PrototypeLinks chain_db) d (chain_key (Suc i)) (chain_key (i + Suc d))"
    by simp
  from Suc.prems have "i < 101" by simp
  then have "(chain_key i, chain_key (Suc i)) \<in> set (PrototypeLinks chain_db)"
    by (simp add: chain_db_def)
  with r have "list_ex (\<lambda>e. fst e = chain_key i
      \<and> reachable_within (PrototypeLinks chain_db) d (snd e) (chain_key (i + Suc d)))
      (PrototypeLinks chain_db)"
    unfolding list_ex_iff by force
  then show ?case by simp
qed

lemma chain_declares: "declares chain_db (chain_key j) name \<Longrightarrow> j = 101"
  by (auto simp: declares_def chain_db_def empty_doc_def chain_key_inj split: if_splits)

lemma chain_miss:
  "\<forall>v. reachable_within (PrototypeLinks chain_db) 100 (chain_key 0) v \<longrightarrow> \<not> declares chain_db v ''greet''"
proof (intro allI impI)
  fix v assume "reachable_within (PrototypeLinks chain_db) 100 (chain_key 0) v"
  from chain_reachable [OF this] obtain j where j: "v = chain_key j" "j \<le> 100" by auto
  show "\<not> declares chain_db v ''greet''"
    using chain_declares [of j "''greet''"] j by auto
qed

lemma chain_greet:
  assumes "UvmObjects chain_db v = Some d" and "doc_methods d ''greet'' = Some c"
  shows "v = chain_key 101
     \<and> d = \<lparr>doc_attributes = Map.empty, doc_methods = [''greet'' \<mapsto> echo_code]\<rparr> \<and> c = echo_code"
  using assms by (auto simp: chain_db_def empty_doc_def split: if_splits)

lemma family_bump:
  assumes "UvmObjects family_db v = Some d" and "doc_methods d ''bump'' = Some c"
  shows "v = ''parent'' \<and> d = parent_doc \<and> c = bump_code"
  using assms
  by (auto simp: family_db_def empty_doc_def child_doc_def parent_doc_def split: if_splits)

text \<open>
  The theorem on four requests. On the store whose two objects delegate to each other the
  method is not found. On the chain of 102 objects whose last one is the only one with the
  method: from the first object, 101 edges away, the method is not found; from the second
  one, exactly 100 edges away, it is found on the last object; from the last one it is found
  at depth 0. On the store where \<open>child\<close> delegates to \<open>parent\<close>, the method \<open>bump\<close> sent
  to \<open>child\<close> is found on \<open>parent\<close>, one edge away. That no object within the bound
  declares the method is \<open>cyclic_declares\<close> for the first store and \<open>chain_miss\<close> for the
  second.
\<close>

theorem resolution_bounded_witness:
  "aql_query cyclic_db ''a'' ''greet'' = []
   \<and> declares chain_db (chain_key 101) ''greet''
   \<and> aql_query chain_db (chain_key 0) ''greet'' = []
   \<and> reachable_within (PrototypeLinks chain_db) 100 (chain_key 1) (chain_key 101)
   \<and> aql_query chain_db (chain_key 1) ''greet''
        = [(chain_key 101, \<lparr>doc_attributes = Map.empty, doc_methods = [''greet'' \<mapsto> echo_code]\<rparr>, echo_code)]
   \<and> UvmObjects chain_db (chain_key 101)
        = Some \<lparr>doc_attributes = Map.empty, doc_methods = [''greet'' \<mapsto> echo_code]\<rparr>
   \<and> aql_query chain_db (chain_key 101) ''greet''
        = [(chain_key 101, \<lparr>doc_attributes = Map.empty, doc_methods = [''greet'' \<mapsto> echo_code]\<rparr>, echo_code)]
   \<and> reachable_within (PrototypeLinks family_db) 100 ''child'' ''parent''
   \<and> declares family_db ''parent'' ''bump''
   \<and> aql_query family_db ''child'' ''bump'' = [(''parent'', parent_doc, bump_code)]"
proof -
  have c: "\<forall>v. reachable_within (PrototypeLinks cyclic_db) 100 ''a'' v \<longrightarrow> \<not> declares cyclic_db v ''greet''"
    by (simp add: cyclic_declares)
  have d: "declares chain_db (chain_key 101) ''greet''"
    by (simp add: declares_def chain_db_def)
  have u: "UvmObjects chain_db (chain_key 101)
        = Some \<lparr>doc_attributes = Map.empty, doc_methods = [''greet'' \<mapsto> echo_code]\<rparr>"
    by (simp add: chain_db_def)
  have m: "doc_methods \<lparr>doc_attributes = Map.empty, doc_methods = [''greet'' \<mapsto> echo_code]\<rparr> ''greet''
      = Some echo_code"
    by simp
  have cr: "reachable_within (PrototypeLinks chain_db) 100 (chain_key 1) (chain_key 101)"
    using chain_reaches [of 1 100] by simp
  have fr: "reachable_within (PrototypeLinks family_db) 100 ''child'' ''parent''"
    by (simp add: family_db_def numeral_eq_Suc)
  have fd: "declares family_db ''parent'' ''bump''"
    by (simp add: declares_def family_db_def parent_doc_def)
  have ch: "\<exists>v. reachable_within (PrototypeLinks chain_db) 100 (chain_key 1) v
      \<and> declares chain_db v ''greet''"
    using cr d by blast
  have fh: "\<exists>v. reachable_within (PrototypeLinks family_db) 100 ''child'' v
      \<and> declares family_db v ''bump''"
    using fr fd by blast
  note r1 = resolution_bounded [of cyclic_db "''a''" "''greet''", THEN conjunct2, THEN conjunct2,
      THEN conjunct1, THEN mp, OF c, THEN conjunct1]
  note r2 = resolution_bounded [of chain_db "chain_key 0" "''greet''", THEN conjunct2, THEN conjunct2,
      THEN conjunct1, THEN mp, OF chain_miss, THEN conjunct1]
  note r3 = resolution_bounded [of chain_db "chain_key 101" "''greet''", THEN conjunct1, THEN spec,
      THEN spec, THEN mp, OF conjI, OF u m]
  note r4 = resolution_bounded [of chain_db "chain_key 1" "''greet''", THEN conjunct2, THEN conjunct2,
      THEN conjunct2, THEN mp, OF ch]
  note r5 = resolution_bounded [of family_db "''child''" "''bump''", THEN conjunct2, THEN conjunct2,
      THEN conjunct2, THEN mp, OF fh]
  have q4: "aql_query chain_db (chain_key 1) ''greet''
        = [(chain_key 101, \<lparr>doc_attributes = Map.empty, doc_methods = [''greet'' \<mapsto> echo_code]\<rparr>, echo_code)]"
    using r4 chain_greet by blast
  have q5: "aql_query family_db ''child'' ''bump'' = [(''parent'', parent_doc, bump_code)]"
    using r5 family_bump by blast
  show ?thesis by (intro conjI r1 d r2 cr q4 u r3 fr fd q5)
qed

subsection \<open>Execution and persistence\<close>

lemma traversal_numeral:
  "traversal es (numeral n) path v =
     v # concat (map (\<lambda>i. traversal es (pred_numeral n) (i # path) (snd (es ! i)))
                     (filter (\<lambda>i. fst (es ! i) = v \<and> i \<notin> set path) [0..<length es]))"
  by (simp add: numeral_eq_Suc)

lemma family_traversal:
  "traversal (PrototypeLinks family_db) 100 [] ''child'' = [''child'', ''parent'', ''nil'']"
  by (simp add: family_db_def traversal_numeral upt_rec)

lemma family_query_child:
  "aql_query family_db ''child'' name =
     (case doc_methods parent_doc name of None \<Rightarrow> [] | Some c \<Rightarrow> [(''parent'', parent_doc, c)])"
  unfolding aql_query_def family_traversal
  by (simp add: List.map_filter_simps method_entry_def family_db_def child_doc_def empty_doc_def
      split: option.splits)

lemma merge_value_atom: "\<forall>m. v \<noteq> PDict m \<Longrightarrow> merge_value v old = v"
  by (cases v) auto

lemma merge_objects_atom:
  "patch x = Some v \<Longrightarrow> \<forall>m. v \<noteq> PDict m \<Longrightarrow> merge_objects stored patch x = Some v"
  by (simp add: merge_objects_def merge_value_atom split: option.splits)

lemma merge_objects_empty: "merge_objects stored Map.empty = stored"
  by (simp add: merge_objects_def)

lemma resolve_execute_unfold:
  assumes "db w = Some store" and "aql_query store target name = [(src, sdoc, body)]"
  shows "resolve_and_execute_method E w target name a k =
     (case post E (length (events w))
             \<lparr>code = body, method_name = name, object_state = doc_attributes sdoc, args = a, kwargs = k\<rparr> of
        HTTPStatusError status \<Rightarrow>
          (None, log_event w (Posted \<lparr>code = body, method_name = name,
                 object_state = doc_attributes sdoc, args = a, kwargs = k\<rparr>))
      | RequestError \<Rightarrow>
          (None, log_event w (Posted \<lparr>code = body, method_name = name,
                 object_state = doc_attributes sdoc, args = a, kwargs = k\<rparr>))
      | Response r \<Rightarrow>
          if reports_error r then
            (None, log_event w (Posted \<lparr>code = body, method_name = name,
                 object_state = doc_attributes sdoc, args = a, kwargs = k\<rparr>))
          else if state_changed r then
            (Some (MethodExecutionResult (output_value r) True (doc_id src)),
             log_event
               ((log_event w (Posted \<lparr>code = body, method_name = name,
                    object_state = doc_attributes sdoc, args = a, kwargs = k\<rparr>))
                \<lparr>db := Some (store\<lparr>UvmObjects := (UvmObjects store)(src \<mapsto>
                     \<lparr>doc_attributes = merge_objects (doc_attributes sdoc) (final_state r),
                      doc_methods = doc_methods sdoc\<rparr>)\<rparr>)\<rparr>)
               (Persisted src (final_state r)))
          else
            (Some (MethodExecutionResult (output_value r) False (doc_id src)),
             log_event w (Posted \<lparr>code = body, method_name = name,
                 object_state = doc_attributes sdoc, args = a, kwargs = k\<rparr>)))"
proof -
  have "(src, sdoc, body) \<in> set (aql_query store target name)"
    using assms(2) by simp
  from aql_query_sound [OF this] have "UvmObjects store src = Some sdoc" by simp
  then show ?thesis
    using assms
    by (simp add: resolve_and_execute_method_def collection_update_def Let_def
        split: http_result.splits)
qed

text \<open>
  Claim C7, as amended. When a dispatch resolves on the object \<open>src\<close>, which may be an
  ancestor of the target, exactly one payload is sent to the sandbox and it carries the
  attribute mapping of \<open>src\<close>. Afterwards the prototype links, every document other than
  that of \<open>src\<close> (the target's among them) and the methods of \<open>src\<close> are as before. When
  the sandbox answers without an error and with \<open>state_changed\<close> true, one update carrying
  the reported final state is issued on the document of \<open>src\<close>, and every attribute of
  that state whose value is not a mapping is then stored in the document of \<open>src\<close>; in
  every other case nothing is written and the document of \<open>src\<close> is as before.
\<close>

theorem dispatch_on_declaring_object:
  assumes "db w = Some store"
    and "aql_query store target name = [(src, sdoc, body)]"
    and "resolve_and_execute_method E w target name a k = (res, w')"
  shows "\<exists>rest store' sdoc'.
      events w' = events w @ Posted \<lparr>code = body, method_name = name,
                    object_state = doc_attributes sdoc, args = a, kwargs = k\<rparr> # rest
    \<and> (\<forall>p. Posted p \<notin> set rest)
    \<and> db w' = Some store'
    \<and> PrototypeLinks store' = PrototypeLinks store
    \<and> (\<forall>key. key \<noteq> src \<longrightarrow> UvmObjects store' key = UvmObjects store key)
    \<and> UvmObjects store src = Some sdoc
    \<and> UvmObjects store' src = Some sdoc'
    \<and> doc_methods sdoc' = doc_methods sdoc
    \<and> (case post E (length (events w)) \<lparr>code = body, method_name = name,
                    object_state = doc_attributes sdoc, args = a, kwargs = k\<rparr> of
          Response r \<Rightarrow>
            if \<not> reports_error r \<and> state_changed r
            then rest = [Persisted src (final_state r)]
                 \<and> (\<forall>x v. final_state r x = Some v \<and> (\<forall>m. v \<noteq> PDict m)
                        \<longrightarrow> doc_attributes sdoc' x = Some v)
            else rest = [] \<and> sdoc' = sdoc
        | _ \<Rightarrow> rest = [] \<and> sdoc' = sdoc)"
proof -
  have "(src, sdoc, body) \<in> set (aql_query store target name)"
    using assms(2) by simp
  from aql_query_sound [OF this] have s: "UvmObjects store src = Some sdoc" by simp
  note u = resolve_execute_unfold [OF assms(1,2), of E a k]
  show ?thesis
  proof (cases "post E (length (events w)) \<lparr>code = body, method_name = name,
                    object_state = doc_attributes sdoc, args = a, kwargs = k\<rparr>")
    case (HTTPStatusError status)
    with u assms(1,3) s show ?thesis
      by (auto simp: log_event_def)
  next
    case RequestError
    with u assms(1,3) s show ?thesis
      by (auto simp: log_event_def)
  next
    case (Response r)
    show ?thesis
    proof (cases "\<not> reports_error r \<and> state_changed r")
      case False
      with Response u assms(1,3) s show ?thesis
        by (auto simp: log_event_def split: if_splits)
    next
      case True
      with Response u assms(3) have w': "w' = log_event
               ((log_event w (Posted \<lparr>code = body, method_name = name,
                    object_state = doc_attributes sdoc, args = a, kwargs = k\<rparr>))
                \<lparr>db := Some (store\<lparr>UvmObjects := (UvmObjects store)(src \<mapsto>
                     \<lparr>doc_attributes = merge_objects (doc_attributes sdoc) (final_state r),
                      doc_methods = doc_methods sdoc\<rparr>)\<rparr>)\<rparr>)
               (Persisted src (final_state r))"
        by simp
      show ?thesis
        apply (rule exI [of _ "[Persisted src (final_state r)]"])
        apply (rule exI [of _ "store\<lparr>UvmObjects := (UvmObjects store)(src \<mapsto>
                     \<lparr>doc_attributes = merge_objects (doc_attributes sdoc) (final_state r),
                      doc_methods = doc_methods sdoc\<rparr>)\<rparr>"])
        apply (rule exI [of _ "\<lparr>doc_attributes = merge_objects (doc_attributes sdoc) (final_state r),
                      doc_methods = doc_methods sdoc\<rparr>"])
        using True Response s
        apply (simp add: w' log_event_def merge_objects_atom)
        done
    qed
  qed
qed

lemma example_post:
  "execute_code example_exec p = Inr r \<Longrightarrow> post (example_env g) t p = Response r"
  by (simp add: example_env_def sandbox_endpoint_def)

lemma execute_bump:
  "execute_code example_exec (call_payload bump_code ''bump'' st)
     = Inr \<lparr>output_value = PNone, state_changed = True, final_state = st(''n'' \<mapsto> PInt 1), error = None\<rparr>"
  by (simp add: execute_code_def call_payload_def example_exec_simps deepcopy_def
      bump_method_def no_arguments_def)

lemma stored_attributes_eq:
  "db w = Some store \<Longrightarrow> UvmObjects store key = Some d
     \<Longrightarrow> stored_attributes w key = Some (PDict (doc_attributes d))"
  by (simp add: stored_attributes_def get_object_def from_doc_def UvmObject_init_def)

lemma family_objects:
  "UvmObjects family_db ''parent'' = Some parent_doc"
  "UvmObjects family_db ''child'' = Some child_doc"
  by (simp_all add: family_db_def)

lemma parent_methods:
  "doc_methods parent_doc ''set_n'' = Some set_n_code"
  "doc_methods parent_doc ''clear'' = Some clear_code"
  "doc_methods parent_doc ''bump'' = Some bump_code"
  by (simp_all add: parent_doc_def)

lemma bump_dispatch_eq:
  "bump_dispatch =
     (Some (MethodExecutionResult PNone True (doc_id ''parent'')),
      log_event
        ((log_event (running family_db)
            (Posted (call_payload bump_code ''bump'' (doc_attributes parent_doc))))
         \<lparr>db := Some (family_db\<lparr>UvmObjects := (UvmObjects family_db)(''parent'' \<mapsto>
              \<lparr>doc_attributes = merge_objects (doc_attributes parent_doc)
                                  ((doc_attributes parent_doc)(''n'' \<mapsto> PInt 1)),
               doc_methods = doc_methods parent_doc\<rparr>)\<rparr>)\<rparr>)
        (Persisted ''parent'' ((doc_attributes parent_doc)(''n'' \<mapsto> PInt 1))))"
proof -
  have d: "db (running family_db) = Some family_db" by (simp add: running_def)
  have q: "aql_query family_db ''child'' ''bump'' = [(''parent'', parent_doc, bump_code)]"
    by (simp add: family_query_child parent_methods)
  show ?thesis
    unfolding bump_dispatch_def resolve_execute_unfold [OF d q]
      call_payload_def [symmetric] example_post [OF execute_bump]
    by (simp add: reports_error_def)
qed

lemma set_n_dispatch_eq:
  "set_n_dispatch =
     (Some (MethodExecutionResult PNone False (doc_id ''parent'')),
      log_event (running family_db)
        (Posted (call_payload set_n_code ''set_n'' (doc_attributes parent_doc))))"
proof -
  have d: "db (running family_db) = Some family_db" by (simp add: running_def)
  have q: "aql_query family_db ''child'' ''set_n'' = [(''parent'', parent_doc, set_n_code)]"
    by (simp add: family_query_child parent_methods)
  show ?thesis
    unfolding set_n_dispatch_def resolve_execute_unfold [OF d q]
      call_payload_def [symmetric] example_post [OF execute_set_n]
    by (simp add: reports_error_def)
qed

lemma clear_dispatch_eq:
  "clear_dispatch =
     (Some (MethodExecutionResult PNone True (doc_id ''parent'')),
      log_event
        ((log_event (running family_db)
            (Posted (call_payload clear_code ''clear'' (doc_attributes parent_doc))))
         \<lparr>db := Some (family_db\<lparr>UvmObjects := (UvmObjects family_db)(''parent'' \<mapsto>
              \<lparr>doc_attributes = merge_objects (doc_attributes parent_doc) Map.empty,
               doc_methods = doc_methods parent_doc\<rparr>)\<rparr>)\<rparr>)
        (Persisted ''parent'' Map.empty))"
proof -
  have d: "db (running family_db) = Some family_db" by (simp add: running_def)
  have q: "aql_query family_db ''parent'' ''clear'' = [(''parent'', parent_doc, clear_code)]"
    by (rule aql_query_hit_at_start) (simp_all add: family_objects parent_methods)
  show ?thesis
    unfolding clear_dispatch_def resolve_execute_unfold [OF d q]
      call_payload_def [symmetric] example_post [OF execute_clear]
    by (simp add: reports_error_def)
qed

text \<open>
  The theorem at the message \<open>bump\<close> sent to \<open>child\<close>: it resolves on \<open>parent\<close>,
  runs against the attributes of \<open>parent\<close>, and the attributes of \<open>child\<close> are as before.
\<close>

theorem dispatch_on_declaring_object_witness:
  "db (running family_db) = Some family_db
   \<and> aql_query family_db ''child'' ''bump'' = [(''parent'', parent_doc, bump_code)]
   \<and> resolve_and_execute_method (example_env []) (running family_db) ''child'' ''bump'' [] Map.empty
       = (fst bump_dispatch, snd bump_dispatch)
   \<and> (\<exists>rest store' sdoc'.
        events (snd bump_dispatch) = events (running family_db) @ Posted \<lparr>code = bump_code, method_name = ''bump'',
                    object_state = doc_attributes parent_doc, args = [], kwargs = Map.empty\<rparr> # rest
      \<and> (\<forall>p. Posted p \<notin> set rest)
      \<and> db (snd bump_dispatch) = Some store'
      \<and> PrototypeLinks store' = PrototypeLinks family_db
      \<and> (\<forall>key. key \<noteq> ''parent'' \<longrightarrow> UvmObjects store' key = UvmObjects family_db key)
      \<and> UvmObjects family_db ''parent'' = Some parent_doc
      \<and> UvmObjects store' ''parent'' = Some sdoc'
      \<and> doc_methods sdoc' = doc_methods parent_doc
      \<and> (case post (example_env []) (length (events (running family_db))) \<lparr>code = bump_code, method_name = ''bump'',
                    object_state = doc_attributes parent_doc, args = [], kwargs = Map.empty\<rparr> of
            Response r \<Rightarrow>
              if \<not> reports_error r \<and> state_changed r
              then rest = [Persisted ''parent'' (final_state r)]
                   \<and> (\<forall>x v. final_state r x = Some v \<and> (\<forall>m. v \<noteq> PDict m)
                          \<longrightarrow> doc_attributes sdoc' x = Some v)
              else rest = [] \<and> sdoc' = parent_doc
          | _ \<Rightarrow> rest = [] \<and> sdoc' = parent_doc))
   \<and> fst bump_dispatch = Some (MethodExecutionResult PNone True (doc_id ''parent''))
   \<and> stored_attributes (snd bump_dispatch) ''child'' = Some (PDict [''c'' \<mapsto> PInt 3])"
proof -
  have d: "db (running family_db) = Some family_db" by (simp add: running_def)
  have q: "aql_query family_db ''child'' ''bump'' = [(''parent'', parent_doc, bump_code)]"
    by (simp add: family_query_child parent_methods)
  have r: "resolve_and_execute_method (example_env []) (running family_db) ''child'' ''bump'' [] Map.empty
       = (fst bump_dispatch, snd bump_dispatch)"
    by (simp add: bump_dispatch_def)
  have f: "fst bump_dispatch = Some (MethodExecutionResult PNone True (doc_id ''parent''))"
    by (simp add: bump_dispatch_eq)
  have c: "stored_attributes (snd bump_dispatch) ''child'' = Some (PDict [''c'' \<mapsto> PInt 3])"
    by (simp add: bump_dispatch_eq stored_attributes_def get_object_def log_event_def
        family_objects from_doc_def UvmObject_init_def child_doc_def)
  show ?thesis
    by (intro conjI d q r f c dispatch_on_declaring_object [OF d q r])
qed

text \<open>
  Claim C7 as written fails where the body changes the attributes and does not set the flag.
  \<open>set_n\<close> sent to \<open>child\<close> resolves on \<open>parent\<close> and runs once; the final state of the
  run has the attribute \<open>n\<close>, the stored attributes of \<open>parent\<close> have none, and the store
  after the dispatch is the store before it.
\<close>

theorem unflagged_mutation_counterexample:
  "aql_query family_db ''child'' ''set_n'' = [(''parent'', parent_doc, set_n_code)]
   \<and> fst set_n_dispatch = Some (MethodExecutionResult PNone False (doc_id ''parent''))
   \<and> events (snd set_n_dispatch)
       = [Posted (call_payload set_n_code ''set_n'' (doc_attributes parent_doc))]
   \<and> execute_code example_exec (call_payload set_n_code ''set_n'' (doc_attributes parent_doc))
       = Inr \<lparr>output_value = PNone, state_changed = False,
              final_state = (doc_attributes parent_doc)(''n'' \<mapsto> PInt 1), error = None\<rparr>
   \<and> doc_attributes parent_doc ''n'' = None
   \<and> db (snd set_n_dispatch) = Some family_db"
  by (simp add: family_query_child parent_methods set_n_dispatch_eq execute_set_n log_event_def
      running_def)
     (simp add: parent_doc_def)

lemma merge_objects_replacement:
  assumes "\<forall>x. patch x = None \<longrightarrow> stored x = None"
    and "\<forall>x v. patch x = Some v \<longrightarrow> (\<forall>m. v \<noteq> PDict m)"
  shows "merge_objects stored patch = patch"
proof
  fix x
  show "merge_objects stored patch x = patch x"
  proof (cases "patch x")
    case None
    with assms(1) show ?thesis by (simp add: merge_objects_def)
  next
    case (Some v)
    with assms(2) have "\<forall>m. v \<noteq> PDict m" by blast
    with Some show ?thesis by (simp add: merge_objects_atom)
  qed
qed

text \<open>
  Where the round trip does hold: the reported final state keeps every stored attribute and
  none of its values is a mapping, so that merging it into the stored mapping gives the
  reported mapping itself.
\<close>

lemma roundtrip_without_removal:
  assumes "db w = Some store"
    and "aql_query store target name = [(src, sdoc, body)]"
    and "post E (length (events w)) \<lparr>code = body, method_name = name,
            object_state = doc_attributes sdoc, args = a, kwargs = k\<rparr> = Response r"
    and "\<not> reports_error r" and "state_changed r"
    and "\<forall>x. final_state r x = None \<longrightarrow> doc_attributes sdoc x = None"
    and "\<forall>x v. final_state r x = Some v \<longrightarrow> (\<forall>m. v \<noteq> PDict m)"
  shows "stored_attributes (snd (resolve_and_execute_method E w target name a k)) src
     = Some (PDict (final_state r))"
  unfolding resolve_execute_unfold [OF assms(1,2)] assms(3)
  using assms(4,5) merge_objects_replacement [OF assms(6,7)]
  by (simp add: stored_attributes_def get_object_def log_event_def from_doc_def UvmObject_init_def)

text \<open>
  Claim C8 at the message \<open>clear\<close> sent to \<open>parent\<close>. The body removes every attribute
  and sets the flag; the sandbox reports a change and the empty mapping as the final state;
  the update is issued and succeeds. The update merges the reported mapping into the stored
  one, so the two removed attributes stay, and reading the object back gives the attributes
  \<open>a\<close> and \<open>b\<close>, not the empty mapping the executor reported.
\<close>

theorem roundtrip_failing_input:
  "fst clear_dispatch = Some (MethodExecutionResult PNone True (doc_id ''parent''))
   \<and> events (snd clear_dispatch)
       = [Posted (call_payload clear_code ''clear'' (doc_attributes parent_doc)),
          Persisted ''parent'' Map.empty]
   \<and> execute_code example_exec (call_payload clear_code ''clear'' (doc_attributes parent_doc))
       = Inr \<lparr>output_value = PNone, state_changed = True, final_state = Map.empty, error = None\<rparr>
   \<and> stored_attributes (snd clear_dispatch) ''parent''
       = Some (PDict [''a'' \<mapsto> PInt 1, ''b'' \<mapsto> PInt 2])"
  by (simp add: clear_dispatch_eq execute_clear log_event_def running_def merge_objects_empty
      stored_attributes_def get_object_def from_doc_def UvmObject_init_def)
     (simp add: parent_doc_def)

subsection \<open>The orchestrator\<close>

lemma install_method_success:
  assumes "db w = Some store" and "UvmObjects store t = Some d"
  shows "install_method w t m c =
     (True, log_event (w\<lparr>db := Some (store\<lparr>UvmObjects := (UvmObjects store)(t \<mapsto>
               \<lparr>doc_attributes = doc_attributes d, doc_methods = (doc_methods d)(m \<mapsto> c)\<rparr>)\<rparr>)\<rparr>)
             (Installed t m c True))"
  using assms by (simp add: install_method_def collection_update_def)

lemma install_method_failure:
  assumes "install_method w t m c = (False, w3)"
  shows "w3 = log_event w (Installed t m c False)"
  using assms by (auto simp: install_method_def split: option.splits)

lemma install_method_true:
  assumes "install_method w t m c = (True, w3)"
  shows "\<exists>store d. db w = Some store \<and> UvmObjects store t = Some d
     \<and> w3 = log_event (w\<lparr>db := Some (store\<lparr>UvmObjects := (UvmObjects store)(t \<mapsto>
               \<lparr>doc_attributes = doc_attributes d, doc_methods = (doc_methods d)(m \<mapsto> c)\<rparr>)\<rparr>)\<rparr>)
             (Installed t m c True)"
  using assms by (auto simp: install_method_def collection_update_def split: option.splits)

lemma audited_only_append:
  "audited_only parse (xs @ ys) = (audited_only parse xs \<and> audited_only parse ys)"
  by (simp add: audited_only_def)

lemma resolve_hit_events:
  assumes "db w = Some store" and "UvmObjects store t = Some d" and "doc_methods d m = Some c"
    and "resolve_and_execute_method E w t m a k = (res, w')"
  shows "\<exists>new. events w' = events w @ Posted \<lparr>code = c, method_name = m,
            object_state = doc_attributes d, args = a, kwargs = k\<rparr> # new
         \<and> (\<forall>e \<in> set new. \<exists>key fs. e = Persisted key fs)
         \<and> http_client w' = http_client w \<and> ollama_client w' = ollama_client w
         \<and> (res = None \<longrightarrow> db w' = db w)"
proof -
  have q: "aql_query store t m = [(t, d, c)]"
    using assms(2,3) by (rule aql_query_hit_at_start)
  show ?thesis
    using assms(4) unfolding resolve_execute_unfold [OF assms(1) q]
    by (auto simp: log_event_def split: http_result.splits if_splits)
qed

lemma audited_only_persisted:
  "\<forall>e \<in> set new. \<exists>key fs. e = Persisted key fs \<Longrightarrow> audited_only parse new"
  by (auto simp: audited_only_def list_all_iff)

lemma dnu_audited_step:
  assumes IH: "\<And>w store d c reply w'.
      \<lbrakk>db w = Some store; UvmObjects store t = Some d; doc_methods d m = Some c;
       passes (ast_parse E) c; process_message E fuel w t m a k = (reply, w')\<rbrakk>
      \<Longrightarrow> \<exists>new. events w' = events w @ new \<and> audited_only (ast_parse E) new"
    and run: "does_not_understand E fuel w t m a k = (reply, w')"
  shows "\<exists>new. events w' = events w @ new \<and> audited_only (ast_parse E) new"
proof (cases "ollama_client w")
  case False
  with run have "w' = w" by simp
  then show ?thesis by (simp add: audited_only_def)
next
  case True
  define g where "g = generate_code E (length (events w)) m a k"
  show ?thesis
  proof (cases "g = []")
    case True
    with run \<open>ollama_client w\<close> have "w' = log_event w (Generated g)"
      by (simp add: g_def Let_def)
    then show ?thesis by (simp add: log_event_def audited_only_def)
  next
    case False
    note nonempty = this
    show ?thesis
    proof (cases "audit (ast_parse E) g")
      case (Inl e)
      with run \<open>ollama_client w\<close> nonempty have "w' = log_event w (Generated g)"
        by (simp add: g_def Let_def)
      then show ?thesis by (simp add: log_event_def audited_only_def)
    next
      case (Inr verdict)
      define w2 where "w2 = log_event (log_event w (Generated g)) (Audited g verdict)"
      have e2: "events w2 = events w @ [Generated g, Audited g verdict]"
        by (simp add: w2_def log_event_def)
      show ?thesis
      proof (cases verdict)
        case False
        with run \<open>ollama_client w\<close> nonempty Inr have "w' = w2"
          by (simp add: g_def w2_def Let_def)
        then show ?thesis by (simp add: e2 audited_only_def)
      next
        case True
        with Inr have pass: "passes (ast_parse E) g" by (simp add: passes_def)
        obtain ok w3 where i: "install_method w2 t m g = (ok, w3)"
          by (cases "install_method w2 t m g")
        show ?thesis
        proof (cases ok)
          case False
          with i have w3: "w3 = log_event w2 (Installed t m g False)"
            using install_method_failure by simp
          from run \<open>ollama_client w\<close> nonempty Inr True i False have "w' = w3"
            by (simp add: g_def w2_def Let_def)
          then show ?thesis using pass by (simp add: w3 log_event_def e2 audited_only_def)
        next
          case ok: True
          with i install_method_true [of w2 t m g w3] obtain store d where
            s: "db w2 = Some store" "UvmObjects store t = Some d"
            and w3: "w3 = log_event (w2\<lparr>db := Some (store\<lparr>UvmObjects := (UvmObjects store)(t \<mapsto>
                 \<lparr>doc_attributes = doc_attributes d, doc_methods = (doc_methods d)(m \<mapsto> g)\<rparr>)\<rparr>)\<rparr>)
               (Installed t m g True)"
            by auto
          from run \<open>ollama_client w\<close> nonempty Inr True i ok
          have r: "process_message E fuel w3 t m a k = (reply, w')"
            by (simp add: g_def w2_def Let_def)
          have "\<exists>new. events w' = events w3 @ new \<and> audited_only (ast_parse E) new"
          proof (rule IH [OF _ _ _ pass r])
            show "db w3 = Some (store\<lparr>UvmObjects := (UvmObjects store)(t \<mapsto>
                 \<lparr>doc_attributes = doc_attributes d, doc_methods = (doc_methods d)(m \<mapsto> g)\<rparr>)\<rparr>)"
              by (simp add: w3 log_event_def)
            show "UvmObjects (store\<lparr>UvmObjects := (UvmObjects store)(t \<mapsto>
                 \<lparr>doc_attributes = doc_attributes d, doc_methods = (doc_methods d)(m \<mapsto> g)\<rparr>)\<rparr>) t
                = Some \<lparr>doc_attributes = doc_attributes d, doc_methods = (doc_methods d)(m \<mapsto> g)\<rparr>"
              by simp
            show "doc_methods \<lparr>doc_attributes = doc_attributes d, doc_methods = (doc_methods d)(m \<mapsto> g)\<rparr> m
                = Some g"
              by simp
          qed
          then obtain new where n: "events w' = events w3 @ new" "audited_only (ast_parse E) new"
            by blast
          have "events w3 = events w @ [Generated g, Audited g verdict, Installed t m g True]"
            by (simp add: w3 log_event_def e2)
          with n True pass
          have "events w' = events w @ ([Generated g, Audited g True, Installed t m g True] @ new)
              \<and> audited_only (ast_parse E) ([Generated g, Audited g True, Installed t m g True] @ new)"
            by (simp add: audited_only_def)
          then show ?thesis by blast
        qed
      qed
    qed
  qed
qed

lemma pm_audited:
  "\<lbrakk>db w = Some store; UvmObjects store t = Some d; doc_methods d m = Some c;
    passes (ast_parse E) c; process_message E fuel w t m a k = (reply, w')\<rbrakk>
   \<Longrightarrow> \<exists>new. events w' = events w @ new \<and> audited_only (ast_parse E) new"
proof (induction fuel arbitrary: w store d c reply w')
  case 0
  then have "w' = w" by simp
  then show ?case by (simp add: audited_only_def)
next
  case (Suc fuel)
  show ?case
  proof (cases "http_client w")
    case False
    with Suc.prems have "w' = w" by simp
    then show ?thesis by (simp add: audited_only_def)
  next
    case True
    obtain res w1 where r: "resolve_and_execute_method E w t m a k = (res, w1)"
      by (cases "resolve_and_execute_method E w t m a k")
    from resolve_hit_events [OF Suc.prems(1,2,3) r] obtain new1 where
      e1: "events w1 = events w @ Posted \<lparr>code = c, method_name = m,
            object_state = doc_attributes d, args = a, kwargs = k\<rparr> # new1"
      and p1: "\<forall>e \<in> set new1. \<exists>key fs. e = Persisted key fs"
      by blast
    have a1: "audited_only (ast_parse E) (Posted \<lparr>code = c, method_name = m,
            object_state = doc_attributes d, args = a, kwargs = k\<rparr> # new1)"
      using audited_only_persisted [OF p1, of "ast_parse E"] Suc.prems(4)
      by (simp add: audited_only_def)
    show ?thesis
    proof (cases res)
      case None
      with Suc.prems(5) True r have dnu: "does_not_understand E fuel w1 t m a k = (reply, w')"
        by simp
      have "\<exists>new. events w' = events w1 @ new \<and> audited_only (ast_parse E) new"
      proof (rule dnu_audited_step [OF _ dnu])
        fix w0 store0 d0 c0 reply0 w0'
        assume "db w0 = Some store0" "UvmObjects store0 t = Some d0" "doc_methods d0 m = Some c0"
          "passes (ast_parse E) c0" "process_message E fuel w0 t m a k = (reply0, w0')"
        then show "\<exists>new. events w0' = events w0 @ new \<and> audited_only (ast_parse E) new"
          by (rule Suc.IH)
      qed
      then obtain new2 where
        "events w' = events w1 @ new2" "audited_only (ast_parse E) new2"
        by blast
      with e1 a1 have "events w' = events w @ ((Posted \<lparr>code = c, method_name = m,
            object_state = doc_attributes d, args = a, kwargs = k\<rparr> # new1) @ new2)
          \<and> audited_only (ast_parse E) ((Posted \<lparr>code = c, method_name = m,
            object_state = doc_attributes d, args = a, kwargs = k\<rparr> # new1) @ new2)"
        by (simp add: audited_only_def)
      then show ?thesis by blast
    next
      case (Some x)
      with Suc.prems(5) True r have "w' = w1"
        by (cases x) simp
      with e1 a1 show ?thesis by blast
    qed
  qed
qed

text \<open>
  Whatever \<open>does_not_understand\<close> does, on every path and with every number of retries,
  each body it sends to the sandbox and each body it hands to \<open>install_method\<close> is one on
  which the auditor has returned \<open>True\<close>. When the auditor returns \<open>False\<close> on the
  generated body the caller gets the error \<open>Security audit failed\<close>; when the auditor
  raises, its exception leaves \<open>does_not_understand\<close>. In both cases the store is as before,
  \<open>install_method\<close> is not called and nothing is sent to the sandbox.
\<close>

lemma only_audited_bodies:
  assumes "does_not_understand E fuel w target name a k = (reply, w')"
  shows "(\<exists>new. events w' = events w @ new \<and> audited_only (ast_parse E) new)
     \<and> (ollama_client w \<and> generate_code E (length (events w)) name a k \<noteq> []
          \<and> audit (ast_parse E) (generate_code E (length (events w)) name a k) = Inr False
        \<longrightarrow> reply = Error ''Security audit failed''
            \<and> db w' = db w
            \<and> events w' = events w @
                 [Generated (generate_code E (length (events w)) name a k),
                  Audited (generate_code E (length (events w)) name a k) False])
     \<and> (ollama_client w \<and> generate_code E (length (events w)) name a k \<noteq> []
          \<and> audit (ast_parse E) (generate_code E (length (events w)) name a k) = Inl e
        \<longrightarrow> reply = Raised (message e)
            \<and> db w' = db w
            \<and> events w' = events w @ [Generated (generate_code E (length (events w)) name a k)])"
proof (intro conjI)
  show "\<exists>new. events w' = events w @ new \<and> audited_only (ast_parse E) new"
  proof (rule dnu_audited_step [OF _ assms])
    fix w0 store d c reply0 w0'
    assume "db w0 = Some store" "UvmObjects store target = Some d" "doc_methods d name = Some c"
      "passes (ast_parse E) c" "process_message E fuel w0 target name a k = (reply0, w0')"
    then show "\<exists>new. events w0' = events w0 @ new \<and> audited_only (ast_parse E) new"
      by (rule pm_audited)
  qed
  show "ollama_client w \<and> generate_code E (length (events w)) name a k \<noteq> []
          \<and> audit (ast_parse E) (generate_code E (length (events w)) name a k) = Inr False
        \<longrightarrow> reply = Error ''Security audit failed''
            \<and> db w' = db w
            \<and> events w' = events w @
                 [Generated (generate_code E (length (events w)) name a k),
                  Audited (generate_code E (length (events w)) name a k) False]"
    using assms by (auto simp: Let_def log_event_def)
  show "ollama_client w \<and> generate_code E (length (events w)) name a k \<noteq> []
          \<and> audit (ast_parse E) (generate_code E (length (events w)) name a k) = Inl e
        \<longrightarrow> reply = Raised (message e)
            \<and> db w' = db w
            \<and> events w' = events w @ [Generated (generate_code E (length (events w)) name a k)]"
    using assms by (auto simp: Let_def log_event_def)
qed

lemma example_env_simps:
  "generate_code (example_env g) t name a k = g"
  "ast_parse (example_env g) = example_parse"
  by (simp_all add: example_env_def)

lemma execute_boom:
  "execute_code example_exec (call_payload boom_code ''boom'' st)
     = Inr \<lparr>output_value = PNone, state_changed = False, final_state = st, error = Some ''ValueError: ''\<rparr>"
  by (simp add: execute_code_def call_payload_def example_exec_simps deepcopy_def
      boom_method_def no_arguments_def execution_error_def)

lemma pm_step_miss:
  assumes "http_client w" and "db w = Some store" and "aql_query store t m = []"
  shows "process_message E (Suc n) w t m a k = does_not_understand E n w t m a k"
  using assms by (simp add: resolve_and_execute_method_def)

lemma pm_step_error:
  assumes "http_client w" and "db w = Some store" and "UvmObjects store t = Some d"
    and "doc_methods d m = Some c"
    and "post E (length (events w)) \<lparr>code = c, method_name = m, object_state = doc_attributes d,
            args = a, kwargs = k\<rparr> = Response r"
    and "reports_error r"
  shows "process_message E (Suc n) w t m a k =
     does_not_understand E n
       (log_event w (Posted \<lparr>code = c, method_name = m, object_state = doc_attributes d,
            args = a, kwargs = k\<rparr>)) t m a k"
proof -
  have q: "aql_query store t m = [(t, d, c)]"
    using assms(3,4) by (rule aql_query_hit_at_start)
  show ?thesis
    using assms(1,5,6) by (simp add: resolve_execute_unfold [OF assms(2) q])
qed

lemma pm_step_result:
  assumes "http_client w" and "db w = Some store" and "UvmObjects store t = Some d"
    and "doc_methods d m = Some c"
    and "post E (length (events w)) \<lparr>code = c, method_name = m, object_state = doc_attributes d,
            args = a, kwargs = k\<rparr> = Response r"
    and "\<not> reports_error r" and "\<not> state_changed r"
  shows "process_message E (Suc n) w t m a k =
     (Result (output_value r) False,
      log_event w (Posted \<lparr>code = c, method_name = m, object_state = doc_attributes d,
            args = a, kwargs = k\<rparr>))"
proof -
  have q: "aql_query store t m = [(t, d, c)]"
    using assms(3,4) by (rule aql_query_hit_at_start)
  show ?thesis
    using assms(1,5,6,7) by (simp add: resolve_execute_unfold [OF assms(2) q])
qed

lemma dnu_step_install:
  assumes "ollama_client w" and "generate_code E (length (events w)) m a k = g" and "g \<noteq> []"
    and "audit (ast_parse E) g = Inr True" and "db w = Some store" and "UvmObjects store t = Some d"
  shows "does_not_understand E n w t m a k =
     process_message E n
       (log_event
          ((log_event (log_event w (Generated g)) (Audited g True))
           \<lparr>db := Some (store\<lparr>UvmObjects := (UvmObjects store)(t \<mapsto>
               \<lparr>doc_attributes = doc_attributes d, doc_methods = (doc_methods d)(m \<mapsto> g)\<rparr>)\<rparr>)\<rparr>)
          (Installed t m g True)) t m a k"
proof -
  have "db (log_event (log_event w (Generated g)) (Audited g True)) = Some store"
    using assms(5) by (simp add: log_event_def)
  from install_method_success [OF this assms(6)] show ?thesis
    using assms(1,2,3,4) by (simp add: Let_def)
qed

lemma dnu_step_reject:
  assumes "ollama_client w" and "generate_code E (length (events w)) m a k = g" and "g \<noteq> []"
    and "audit (ast_parse E) g = Inr False"
  shows "does_not_understand E n w t m a k =
     (Error ''Security audit failed'', log_event (log_event w (Generated g)) (Audited g False))"
  using assms by (simp add: Let_def)

lemma dnu_step_raise:
  assumes "ollama_client w" and "generate_code E (length (events w)) m a k = g" and "g \<noteq> []"
    and "audit (ast_parse E) g = Inl e"
  shows "does_not_understand E n w t m a k = (Raised (message e), log_event w (Generated g))"
  using assms by (simp add: Let_def)

lemma text_nonempty: "boom_code \<noteq> []" "echo_code \<noteq> []" "open_code \<noteq> []" "deep_code \<noteq> []"
  by (simp_all add: boom_code_def echo_code_def open_code_def deep_code_def)

lemma genesis_query: "aql_query genesis_db ''system'' name = []"
  by (rule aql_query_miss) (simp add: declares_def genesis_db_def empty_doc_def)

lemma genesis_system: "UvmObjects genesis_db ''system'' = Some empty_doc"
  by (simp add: genesis_db_def)

lemma faulty_system:
  "UvmObjects faulty_db ''system''
     = Some \<lparr>doc_attributes = Map.empty, doc_methods = [''boom'' \<mapsto> boom_code]\<rparr>"
  by (simp add: faulty_db_def)

lemma running_simps:
  "db (running store) = Some store" "http_client (running store)" "ollama_client (running store)"
  "events (running store) = []"
  by (simp_all add: running_def)

lemma log_event_simps:
  "db (log_event w e) = db w" "http_client (log_event w e) = http_client w"
  "ollama_client (log_event w e) = ollama_client w" "events (log_event w e) = events w @ [e]"
  by (simp_all add: log_event_def)

lemma loop_runs:
  assumes "http_client w" and "ollama_client w" and "db w = Some store"
    and "UvmObjects store ''system'' = Some d" and "doc_methods d ''boom'' = Some boom_code"
    and "doc_attributes d = Map.empty"
  shows "fst (process_message (example_env boom_code) n w ''system'' ''boom'' [] Map.empty) = OutOfFuel
     \<and> events (snd (process_message (example_env boom_code) n w ''system'' ''boom'' [] Map.empty))
         = events w @ concat (replicate n generation_round)"
  using assms
proof (induction n arbitrary: w store d)
  case 0
  show ?case by simp
next
  case (Suc n)
  let ?p = "\<lparr>code = boom_code, method_name = ''boom'', object_state = doc_attributes d,
            args = [], kwargs = Map.empty\<rparr>"
  let ?w1 = "log_event w (Posted ?p)"
  let ?store = "store\<lparr>UvmObjects := (UvmObjects store)(''system'' \<mapsto>
               \<lparr>doc_attributes = doc_attributes d, doc_methods = (doc_methods d)(''boom'' \<mapsto> boom_code)\<rparr>)\<rparr>"
  let ?w3 = "log_event
          ((log_event (log_event ?w1 (Generated boom_code)) (Audited boom_code True))
           \<lparr>db := Some ?store\<rparr>)
          (Installed ''system'' ''boom'' boom_code True)"
  have p: "?p = call_payload boom_code ''boom'' Map.empty"
    by (simp add: call_payload_def Suc.prems(6))
  have r: "post (example_env boom_code) (length (events w)) ?p
      = Response \<lparr>output_value = PNone, state_changed = False, final_state = Map.empty,
                  error = Some ''ValueError: ''\<rparr>"
    unfolding p by (rule example_post [OF execute_boom])
  have e: "reports_error \<lparr>output_value = PNone, state_changed = False, final_state = Map.empty,
                  error = Some ''ValueError: ''\<rparr>"
    by (simp add: reports_error_def)
  have s1: "process_message (example_env boom_code) (Suc n) w ''system'' ''boom'' [] Map.empty
      = does_not_understand (example_env boom_code) n ?w1 ''system'' ''boom'' [] Map.empty"
    by (rule pm_step_error [OF Suc.prems(1,3,4,5) r e])
  have s2: "does_not_understand (example_env boom_code) n ?w1 ''system'' ''boom'' [] Map.empty
      = process_message (example_env boom_code) n ?w3 ''system'' ''boom'' [] Map.empty"
    by (rule dnu_step_install [where store = store and d = d])
       (simp_all add: log_event_simps Suc.prems example_env_simps text_nonempty audit_boom)
  have ih: "fst (process_message (example_env boom_code) n ?w3 ''system'' ''boom'' [] Map.empty) = OutOfFuel
     \<and> events (snd (process_message (example_env boom_code) n ?w3 ''system'' ''boom'' [] Map.empty))
         = events ?w3 @ concat (replicate n generation_round)"
    by (rule Suc.IH [where store = ?store and d = "\<lparr>doc_attributes = doc_attributes d,
          doc_methods = (doc_methods d)(''boom'' \<mapsto> boom_code)\<rparr>"])
       (simp_all add: log_event_def Suc.prems)
  have ev: "events ?w3 = events w @ generation_round"
    by (simp add: log_event_def generation_round_def p)
  show ?case
    unfolding s1 s2 using ih ev by simp
qed

text \<open>
  Claim C4 at a request the code can receive: the message \<open>boom\<close> to \<open>system\<close> on the
  store of \<open>genesis.py\<close>, with a generator whose body passes the audit and raises when it
  runs. The first dispatch misses, the body is generated, audited and installed, and the
  request is issued again. The retried dispatch resolves at depth 0, the body raises, and
  \<open>resolve_and_execute_method\<close> returns \<open>None\<close> as it does on a miss: another body is
  generated for the same target and method, and so on. The request does not end within any
  number of entries into \<open>process_message\<close>, and with \<open>fuel + 1\<close> entries allowed there are
  \<open>fuel + 1\<close> generations for the one pair.
\<close>

theorem retry_regenerates:
  "fst (looping_request fuel) = OutOfFuel
   \<and> events (snd (looping_request (Suc fuel)))
       = [Generated boom_code, Audited boom_code True, Installed ''system'' ''boom'' boom_code True]
         @ concat (replicate fuel generation_round)"
proof -
  let ?E = "example_env boom_code"
  let ?store = "genesis_db\<lparr>UvmObjects := (UvmObjects genesis_db)(''system'' \<mapsto>
               \<lparr>doc_attributes = doc_attributes empty_doc,
                doc_methods = (doc_methods empty_doc)(''boom'' \<mapsto> boom_code)\<rparr>)\<rparr>"
  let ?w3 = "log_event
          ((log_event (log_event (running genesis_db) (Generated boom_code)) (Audited boom_code True))
           \<lparr>db := Some ?store\<rparr>)
          (Installed ''system'' ''boom'' boom_code True)"
  have step: "looping_request (Suc n) = process_message ?E n ?w3 ''system'' ''boom'' [] Map.empty" for n
  proof -
    have "looping_request (Suc n)
        = does_not_understand ?E n (running genesis_db) ''system'' ''boom'' [] Map.empty"
      unfolding looping_request_def
      by (rule pm_step_miss [where store = genesis_db]) (simp_all add: running_simps genesis_query)
    also have "\<dots> = process_message ?E n ?w3 ''system'' ''boom'' [] Map.empty"
      by (rule dnu_step_install [where store = genesis_db and d = empty_doc])
         (simp_all add: running_simps example_env_simps text_nonempty audit_boom genesis_system)
    finally show ?thesis .
  qed
  have run: "fst (process_message ?E n ?w3 ''system'' ''boom'' [] Map.empty) = OutOfFuel
     \<and> events (snd (process_message ?E n ?w3 ''system'' ''boom'' [] Map.empty))
         = events ?w3 @ concat (replicate n generation_round)" for n
    by (rule loop_runs [where store = ?store and d = "\<lparr>doc_attributes = doc_attributes empty_doc,
                doc_methods = (doc_methods empty_doc)(''boom'' \<mapsto> boom_code)\<rparr>"])
       (simp_all add: log_event_def running_def empty_doc_def)
  have ev: "events ?w3
      = [Generated boom_code, Audited boom_code True, Installed ''system'' ''boom'' boom_code True]"
    by (simp add: log_event_def running_def)
  have "fst (looping_request fuel) = OutOfFuel"
  proof (cases fuel)
    case 0
    then show ?thesis by (simp add: looping_request_def)
  next
    case (Suc n)
    then show ?thesis using step [of n] run [of n] by simp
  qed
  moreover have "events (snd (looping_request (Suc fuel)))
       = [Generated boom_code, Audited boom_code True, Installed ''system'' ''boom'' boom_code True]
         @ concat (replicate fuel generation_round)"
    using step [of fuel] run [of fuel] ev by simp
  ultimately show ?thesis ..
qed

lemma echo_result:
  assumes "http_client w" and "db w = Some store" and "UvmObjects store ''system'' = Some d"
    and "doc_methods d ''boom'' = Some echo_code" and "doc_attributes d = Map.empty"
  shows "process_message (example_env g) (Suc n) w ''system'' ''boom'' [] Map.empty
     = (Result (PInt 1) False, log_event w (Posted (call_payload echo_code ''boom'' Map.empty)))"
proof -
  let ?p = "\<lparr>code = echo_code, method_name = ''boom'', object_state = doc_attributes d,
            args = [], kwargs = Map.empty\<rparr>"
  have p: "?p = call_payload echo_code ''boom'' Map.empty"
    by (simp add: call_payload_def assms(5))
  have r: "post (example_env g) (length (events w)) ?p
      = Response \<lparr>output_value = PInt 1, state_changed = False, final_state = Map.empty,
                  error = None\<rparr>"
    unfolding p by (rule example_post [OF execute_echo])
  have "process_message (example_env g) (Suc n) w ''system'' ''boom'' [] Map.empty
      = (Result (output_value \<lparr>output_value = PInt 1, state_changed = False,
                   final_state = Map.empty, error = None\<rparr>) False, log_event w (Posted ?p))"
    by (rule pm_step_result [OF assms(1,2,3,4) r]) (simp_all add: reports_error_def)
  then show ?thesis by (simp add: p)
qed

lemma faulty_request_eq:
  "faulty_request (Suc (Suc n)) =
     (Result (PInt 1) False,
      \<lparr>db = Some (faulty_db\<lparr>UvmObjects := (UvmObjects faulty_db)(''system'' \<mapsto>
               \<lparr>doc_attributes = Map.empty, doc_methods = [''boom'' \<mapsto> echo_code]\<rparr>)\<rparr>),
       http_client = True, ollama_client = True,
       events = [Posted (call_payload boom_code ''boom'' Map.empty),
                 Generated echo_code,
                 Audited echo_code True,
                 Installed ''system'' ''boom'' echo_code True,
                 Posted (call_payload echo_code ''boom'' Map.empty)]\<rparr>)"
proof -
  let ?E = "example_env echo_code"
  let ?d = "\<lparr>doc_attributes = Map.empty, doc_methods = [''boom'' \<mapsto> boom_code]\<rparr>"
  let ?p = "\<lparr>code = boom_code, method_name = ''boom'', object_state = doc_attributes ?d,
            args = [], kwargs = Map.empty\<rparr>"
  let ?w1 = "log_event (running faulty_db) (Posted ?p)"
  let ?d' = "\<lparr>doc_attributes = doc_attributes ?d, doc_methods = (doc_methods ?d)(''boom'' \<mapsto> echo_code)\<rparr>"
  let ?store = "faulty_db\<lparr>UvmObjects := (UvmObjects faulty_db)(''system'' \<mapsto> ?d')\<rparr>"
  let ?w3 = "log_event
          ((log_event (log_event ?w1 (Generated echo_code)) (Audited echo_code True))
           \<lparr>db := Some ?store\<rparr>)
          (Installed ''system'' ''boom'' echo_code True)"
  have p: "?p = call_payload boom_code ''boom'' Map.empty"
    by (simp add: call_payload_def)
  have r: "post ?E (length (events (running faulty_db))) ?p
      = Response \<lparr>output_value = PNone, state_changed = False, final_state = Map.empty,
                  error = Some ''ValueError: ''\<rparr>"
    unfolding p by (rule example_post [OF execute_boom])
  have "faulty_request (Suc (Suc n))
      = does_not_understand ?E (Suc n) ?w1 ''system'' ''boom'' [] Map.empty"
    unfolding faulty_request_def
    by (rule pm_step_error [where store = faulty_db and d = ?d, OF _ _ _ _ r])
       (simp_all add: running_simps faulty_system reports_error_def)
  also have "\<dots> = process_message ?E (Suc n) ?w3 ''system'' ''boom'' [] Map.empty"
    by (rule dnu_step_install [where store = faulty_db and d = ?d])
       (simp_all add: log_event_simps running_simps example_env_simps text_nonempty audit_echo
          faulty_system)
  also have "\<dots> = (Result (PInt 1) False,
      log_event ?w3 (Posted (call_payload echo_code ''boom'' Map.empty)))"
    by (rule echo_result [where store = ?store and d = ?d'])
       (simp_all add: log_event_def running_def)
  finally show ?thesis
    by (simp add: log_event_def running_def call_payload_def)
qed

text \<open>
  Claim C1 at a request the code can receive: the message \<open>boom\<close> to \<open>system\<close>, where
  \<open>system\<close> declares \<open>boom\<close> and its body raises \<open>ValueError\<close> in the sandbox. The
  dispatch resolves at depth 0 and the body raises; the caller gets no execution fault.
  \<open>resolve_and_execute_method\<close> returns \<open>None\<close>, \<open>process_message\<close> takes it for a miss,
  a new body is generated, audited and installed over the declared one, the request is issued
  again, and the caller gets the result of the new body.
\<close>

theorem execution_error_enters_generation:
  "aql_query faulty_db ''system'' ''boom''
     = [(''system'', \<lparr>doc_attributes = Map.empty, doc_methods = [''boom'' \<mapsto> boom_code]\<rparr>, boom_code)]
   \<and> raised example_exec (call_payload boom_code ''boom'' Map.empty)
       = Some (Exception ''ValueError'' [])
   \<and> fst (faulty_request (Suc (Suc fuel))) = Result (PInt 1) False
   \<and> events (snd (faulty_request (Suc (Suc fuel))))
       = [Posted (call_payload boom_code ''boom'' Map.empty),
          Generated echo_code,
          Audited echo_code True,
          Installed ''system'' ''boom'' echo_code True,
          Posted (call_payload echo_code ''boom'' Map.empty)]
   \<and> db (snd (faulty_request (Suc (Suc fuel))))
       = Some (faulty_db\<lparr>UvmObjects := (UvmObjects faulty_db)(''system'' \<mapsto>
               \<lparr>doc_attributes = Map.empty, doc_methods = [''boom'' \<mapsto> echo_code]\<rparr>)\<rparr>)"
proof -
  have "aql_query faulty_db ''system'' ''boom''
     = [(''system'', \<lparr>doc_attributes = Map.empty, doc_methods = [''boom'' \<mapsto> boom_code]\<rparr>, boom_code)]"
    by (rule aql_query_hit_at_start) (simp_all add: faulty_system)
  then show ?thesis
    by (simp add: raised_boom faulty_request_eq)
qed

lemma rejected_request_eq:
  "rejected_request n =
     (Error ''Security audit failed'',
      log_event (log_event (running genesis_db) (Generated open_code)) (Audited open_code False))"
  unfolding rejected_request_def
  by (rule dnu_step_reject)
     (simp_all add: running_simps example_env_simps text_nonempty audit_open)

lemma accepted_request_eq:
  "accepted_request (Suc n) =
     (Result (PInt 1) False,
      \<lparr>db = Some (genesis_db\<lparr>UvmObjects := (UvmObjects genesis_db)(''system'' \<mapsto>
               \<lparr>doc_attributes = Map.empty, doc_methods = [''boom'' \<mapsto> echo_code]\<rparr>)\<rparr>),
       http_client = True, ollama_client = True,
       events = [Generated echo_code,
                 Audited echo_code True,
                 Installed ''system'' ''boom'' echo_code True,
                 Posted (call_payload echo_code ''boom'' Map.empty)]\<rparr>)"
proof -
  let ?E = "example_env echo_code"
  let ?d' = "\<lparr>doc_attributes = doc_attributes empty_doc,
              doc_methods = (doc_methods empty_doc)(''boom'' \<mapsto> echo_code)\<rparr>"
  let ?store = "genesis_db\<lparr>UvmObjects := (UvmObjects genesis_db)(''system'' \<mapsto> ?d')\<rparr>"
  let ?w3 = "log_event
          ((log_event (log_event (running genesis_db) (Generated echo_code)) (Audited echo_code True))
           \<lparr>db := Some ?store\<rparr>)
          (Installed ''system'' ''boom'' echo_code True)"
  have "accepted_request (Suc n) = process_message ?E (Suc n) ?w3 ''system'' ''boom'' [] Map.empty"
    unfolding accepted_request_def
    by (rule dnu_step_install [where store = genesis_db and d = empty_doc])
       (simp_all add: running_simps example_env_simps text_nonempty audit_echo genesis_system)
  also have "\<dots> = (Result (PInt 1) False,
      log_event ?w3 (Posted (call_payload echo_code ''boom'' Map.empty)))"
    by (rule echo_result [where store = ?store and d = ?d'])
       (simp_all add: log_event_def running_def empty_doc_def)
  finally show ?thesis
    by (simp add: log_event_def running_def empty_doc_def)
qed

lemma unparsable_request_eq:
  "unparsable_request (Suc n) =
     (Raised ''maximum recursion depth exceeded during ast construction'',
      log_event (running genesis_db) (Generated deep_code))"
proof -
  have "unparsable_request (Suc n)
      = does_not_understand (example_env deep_code) n (running genesis_db) ''system'' ''boom'' [] Map.empty"
    unfolding unparsable_request_def
    by (rule pm_step_miss [where store = genesis_db]) (simp_all add: running_simps genesis_query)
  also have "\<dots> = (Raised (message recursion_error), log_event (running genesis_db) (Generated deep_code))"
    by (rule dnu_step_raise)
       (simp_all add: running_simps example_env_simps text_nonempty audit_deep)
  finally show ?thesis by (simp add: recursion_error_def)
qed

text \<open>
  Claim C2 at a request the code can receive: the message \<open>boom\<close> to \<open>system\<close> on the
  store of \<open>genesis.py\<close>, with a generator that returns a method whose body is a sum of 3001
  terms. The dispatch misses and the body is generated. The parser raises \<open>RecursionError\<close>
  on it, \<open>audit\<close> catches \<open>SyntaxError\<close> only and \<open>does_not_understand\<close> catches nothing:
  the body is not installed and not sent to the sandbox, but the caller gets no
  \<open>Security audit failed\<close>; the exception of the parser leaves \<open>process_message\<close>, and no
  verdict of the auditor exists.
\<close>

theorem audit_exception_escapes:
  "aql_query genesis_db ''system'' ''boom'' = []
   \<and> generate_code (example_env deep_code) 0 ''boom'' [] Map.empty = deep_code
   \<and> ast_parse (example_env deep_code) deep_code = ParseRaises recursion_error
   \<and> audit (ast_parse (example_env deep_code)) deep_code = Inl recursion_error
   \<and> fst (unparsable_request (Suc fuel))
       = Raised ''maximum recursion depth exceeded during ast construction''
   \<and> fst (unparsable_request (Suc fuel)) \<noteq> Error ''Security audit failed''
   \<and> events (snd (unparsable_request (Suc fuel))) = [Generated deep_code]
   \<and> db (snd (unparsable_request (Suc fuel))) = Some genesis_db"
  by (simp add: genesis_query example_env_simps example_parse_deep audit_deep unparsable_request_eq
      log_event_def running_def)

end
